theory Spec2Isabelle
  imports Main "HOL-Library.Word"
begin

section \<open>gandi-dyn: a dynamic-DNS updater over the Gandi XML-RPC API\<close>

text \<open>
  The development embeds \<^verbatim>\<open>main.go\<close> (the repository's other source file is an
  earlier revision of the same program). The program is sequential; everything it does
  beyond computing values is a remote call, a line on standard output or standard error, or
  the exit status. The model threads a state that records the remote calls issued (in
  order) and the lines printed. What the outside world answers is a parameter: an
  environment of oracles, each of which sees the calls issued so far, so that a remote
  service with state of its own is covered.
\<close>

subsection \<open>Data\<close>

text \<open>\<^verbatim>\<open>type NewRecord struct\<close>: the request shape of \<^verbatim>\<open>domain.zone.record.add\<close>.\<close>

datatype NewRecord = NewRecord (nType: string) (nName: string) (nValue: string) (nTTL: int)

text \<open>
  \<^verbatim>\<open>type Record struct\<close>. The field \<^verbatim>\<open>Id\<close> is a string in the source; it is named
  \<open>Id'\<close> here because \<open>Id\<close> is the identity relation of HOL. Go's \<^verbatim>\<open>int\<close> fields are
  \<open>int\<close>: the program never does arithmetic on them.
\<close>

record Record =
  Id' :: string
  Type :: string
  Name :: string
  Value :: string
  TTL :: int

text \<open>The zero value \<^verbatim>\<open>Record{}\<close>.\<close>

definition Record_zero :: Record where
  "Record_zero = \<lparr>Id' = [], Type = [], Name = [], Value = [], TTL = 0\<rparr>"

text \<open>
  Errors. \<open>LibError\<close> is an error handed back by a library the program calls
  (\<^verbatim>\<open>net/http\<close>, \<^verbatim>\<open>ioutil\<close>, \<^verbatim>\<open>encoding/json\<close>, \<^verbatim>\<open>xmlrpc\<close>), with its message.
  \<open>NumError\<close> is \<^verbatim>\<open>*strconv.NumError\<close> (function, input, cause). \<open>Errorf\<close> is an error
  built by \<^verbatim>\<open>fmt.Errorf\<close>: the format string and its arguments, unformatted.
\<close>

datatype num_err = ErrSyntax | ErrRange

datatype val = VStr string | VInt int | VStruct "string list"

datatype error =
    LibError string
  | NumError string string num_err
  | Errorf string "val list"

text \<open>
  Output. Each \<^verbatim>\<open>fmt.Println\<close> is one \<open>Println\<close> with its operands (formatting is not
  modelled). On standard error, \<open>Fprintf\<close> is the one \<^verbatim>\<open>fmt.Fprintf(os.Stderr, ...)\<close> of
  \<^verbatim>\<open>main\<close>, and \<open>FlagOutput\<close> is a line written by the \<^verbatim>\<open>flag\<close> package itself.
\<close>

datatype pval = PStr string | PInt int | PRecord Record | PErr error

datatype out = Println "pval list"

datatype err_out = Fprintf string error | FlagOutput string

text \<open>
  Remote calls, with their arguments in the order of the source's \<^verbatim>\<open>args\<close> slices (the API
  key first). \<open>HttpGet\<close> is the request to the public-IP service. The identifier of
  \<open>RecordDelete\<close> is the \<^verbatim>\<open>int64\<close> parsed from the record's string identifier.
\<close>

datatype call =
    HttpGet string
  | DomainInfo string string
  | RecordList string int int
  | VersionNew string int
  | RecordDelete string int int "64 word"
  | RecordAdd string int int NewRecord
  | VersionSet string int int
  | VersionDelete string int int

record state =
  calls :: "call list"
  stdout :: "out list"
  stderr :: "err_out list"

definition init :: state where
  "init = \<lparr>calls = [], stdout = [], stderr = []\<rparr>"

definition issue :: "call \<Rightarrow> state \<Rightarrow> state" where
  "issue c s = s\<lparr>calls := calls s @ [c]\<rparr>"

definition println :: "pval list \<Rightarrow> state \<Rightarrow> state" where
  "println vs s = s\<lparr>stdout := stdout s @ [Println vs]\<rparr>"

subsection \<open>The environment\<close>

text \<open>
  \<open>flag_parse\<close> is what \<^verbatim>\<open>flag.Parse()\<close> makes of the command line: the positional
  arguments left (\<^verbatim>\<open>flag.Args()\<close>), or a failure (an unknown flag, \<^verbatim>\<open>-h\<close>), on which the
  package writes its own lines to standard error and calls \<^verbatim>\<open>flag.Usage\<close>.
\<close>

datatype parse_result = Parsed "string list" | ParseFailed "string list"

text \<open>An HTTP response: its status code, and what \<^verbatim>\<open>ioutil.ReadAll(rsp.Body)\<close> gives.\<close>

record http_response =
  StatusCode :: int
  Body :: "error + string"

text \<open>
  Each XML-RPC oracle takes the calls issued before this one and the arguments, and gives
  what \<^verbatim>\<open>client.Call\<close> leaves in the result variable together with the error it returns
  (\<open>None\<close> is \<^verbatim>\<open>nil\<close>). \<open>json_ip\<close> is \<^verbatim>\<open>json.Unmarshal\<close> into
  \<^verbatim>\<open>struct{IP string `json:"ip"`}\<close>: the decoded field, or the decoder's error.
  \<open>new_client\<close> is the error of \<^verbatim>\<open>xmlrpc.NewClient\<close>.
\<close>

record env =
  flag_parse :: parse_result
  http_get :: "call list \<Rightarrow> string \<Rightarrow> error + http_response"
  json_ip :: "string \<Rightarrow> error + string"
  new_client :: "error option"
  domain_info :: "call list \<Rightarrow> string \<Rightarrow> string \<Rightarrow> int \<times> error option"
  record_list :: "call list \<Rightarrow> string \<Rightarrow> int \<Rightarrow> int \<Rightarrow> Record list \<times> error option"
  version_new :: "call list \<Rightarrow> string \<Rightarrow> int \<Rightarrow> int \<times> error option"
  record_delete :: "call list \<Rightarrow> string \<Rightarrow> int \<Rightarrow> int \<Rightarrow> 64 word \<Rightarrow> int \<times> error option"
  record_add :: "call list \<Rightarrow> string \<Rightarrow> int \<Rightarrow> int \<Rightarrow> NewRecord \<Rightarrow> Record \<times> error option"
  version_set :: "call list \<Rightarrow> string \<Rightarrow> int \<Rightarrow> int \<Rightarrow> bool \<times> error option"
  version_delete :: "call list \<Rightarrow> string \<Rightarrow> int \<Rightarrow> int \<Rightarrow> bool \<times> error option"

subsection \<open>Library functions the program relies on\<close>

text \<open>
  \<^verbatim>\<open>strconv.ParseInt(s, 10, 64)\<close> of the Go standard library: an optional sign, then
  \<^verbatim>\<open>ParseUint\<close> in base 10 over 64 bits (digits only; the loop stops with a range error
  as soon as the next digit would overflow), then the range check of \<^verbatim>\<open>int64\<close>.
\<close>

definition is_digit :: "char \<Rightarrow> bool" where
  "is_digit c = (48 \<le> (of_char c :: nat) \<and> (of_char c :: nat) \<le> 57)"

definition cutoff :: "64 word" where
  "cutoff = 1844674407370955162"

fun ParseUint_loop :: "64 word \<Rightarrow> string \<Rightarrow> num_err + 64 word" where
  "ParseUint_loop n [] = Inr n"
| "ParseUint_loop n (c # cs) =
     (if \<not> is_digit c then Inl ErrSyntax
      else if cutoff \<le> n then Inl ErrRange
      else let n' = n * 10; n1 = n' + of_nat (of_char c - 48)
           in if n1 < n' then Inl ErrRange else ParseUint_loop n1 cs)"

definition ParseUint :: "string \<Rightarrow> num_err + 64 word" where
  "ParseUint s = (if s = [] then Inl ErrSyntax else ParseUint_loop 0 s)"

definition ParseInt :: "string \<Rightarrow> error + 64 word" where
  "ParseInt s =
     (if s = [] then Inl (NumError ''ParseInt'' s ErrSyntax)
      else let neg = (hd s = CHR ''-'');
               s1 = (if hd s = CHR ''+'' \<or> neg then tl s else s)
           in case ParseUint s1 of
                Inl k \<Rightarrow> Inl (NumError ''ParseInt'' s k)
              | Inr un \<Rightarrow>
                  if \<not> neg \<and> 2 ^ 63 \<le> un then Inl (NumError ''ParseInt'' s ErrRange)
                  else if neg \<and> 2 ^ 63 < un then Inl (NumError ''ParseInt'' s ErrRange)
                  else Inr (if neg then - un else un))"

text \<open>
  \<^verbatim>\<open>reIP.MatchString\<close> for \<^verbatim>\<open>reIP = regexp.MustCompile(`\d+\.\d+\.\d+\.\d+`)\<close>. The
  pattern has no anchors, so \<^verbatim>\<open>MatchString\<close> reports whether the pattern matches
  somewhere in the string. \<open>digits1\<close> is \<^verbatim>\<open>\d+\<close> (one or more ASCII digits; before a dot
  it can only stop at the end of the run of digits), \<open>dot\<close> is \<^verbatim>\<open>\.\<close>.
\<close>

definition digits1 :: "string \<Rightarrow> string option" where
  "digits1 s = (if takeWhile is_digit s = [] then None else Some (dropWhile is_digit s))"

definition dot :: "string \<Rightarrow> string option" where
  "dot s = (case s of [] \<Rightarrow> None | c # cs \<Rightarrow> if c = CHR ''.'' then Some cs else None)"

definition reIP_here :: "string \<Rightarrow> string option" where
  "reIP_here s =
     Option.bind (Option.bind (Option.bind (Option.bind (Option.bind (Option.bind
       (digits1 s) dot) digits1) dot) digits1) dot) digits1"

fun reIP_MatchString :: "string \<Rightarrow> bool" where
  "reIP_MatchString [] = False"
| "reIP_MatchString (c # cs) = (reIP_here (c # cs) \<noteq> None \<or> reIP_MatchString cs)"

subsection \<open>The registrar client\<close>

text \<open>
  The methods of \<^verbatim>\<open>GandiAPI\<close>. The receiver holds the key and the client; the client is
  the environment, so a method takes the key. Each one issues its call and returns the
  pair of the source (result, error).
\<close>

definition GetZoneId :: "env \<Rightarrow> string \<Rightarrow> string \<Rightarrow> state \<Rightarrow> (int \<times> error option) \<times> state" where
  "GetZoneId env key domain s =
     (domain_info env (calls s) key domain, issue (DomainInfo key domain) s)"

definition GetZoneRecords ::
  "env \<Rightarrow> string \<Rightarrow> int \<Rightarrow> int \<Rightarrow> state \<Rightarrow> (Record list \<times> error option) \<times> state" where
  "GetZoneRecords env key zoneId version s =
     (record_list env (calls s) key zoneId version, issue (RecordList key zoneId version) s)"

definition CopyZoneVersion :: "env \<Rightarrow> string \<Rightarrow> int \<Rightarrow> state \<Rightarrow> (int \<times> error option) \<times> state" where
  "CopyZoneVersion env key zoneId s =
     (version_new env (calls s) key zoneId, issue (VersionNew key zoneId) s)"

definition DeleteRecord ::
  "env \<Rightarrow> string \<Rightarrow> int \<Rightarrow> int \<Rightarrow> string \<Rightarrow> state \<Rightarrow> (int \<times> error option) \<times> state" where
  "DeleteRecord env key zoneId version id' s =
     (case ParseInt id' of
        Inl err \<Rightarrow> ((0, Some err), s)
      | Inr intId \<Rightarrow>
          (record_delete env (calls s) key zoneId version intId,
           issue (RecordDelete key zoneId version intId) s))"

definition AddRecord ::
  "env \<Rightarrow> string \<Rightarrow> int \<Rightarrow> int \<Rightarrow> Record \<Rightarrow> state \<Rightarrow> (Record \<times> error option) \<times> state" where
  "AddRecord env key zoneId version record s =
     (let r = NewRecord (Type record) (Name record) (Value record) (TTL record)
      in (record_add env (calls s) key zoneId version r,
          issue (RecordAdd key zoneId version r) s))"

definition SetZoneVersion :: "env \<Rightarrow> string \<Rightarrow> int \<Rightarrow> int \<Rightarrow> state \<Rightarrow> error option \<times> state" where
  "SetZoneVersion env key zoneId version s =
     (let (ok, err) = version_set env (calls s) key zoneId version;
          s' = issue (VersionSet key zoneId version) s
      in case err of
           Some e \<Rightarrow> (Some e, s')
         | None \<Rightarrow>
             if \<not> ok then (Some (Errorf ''zone activation failed for unknown reason'' []), s')
             else (None, s'))"

definition DeleteZoneVersion :: "env \<Rightarrow> string \<Rightarrow> int \<Rightarrow> int \<Rightarrow> state \<Rightarrow> error option \<times> state" where
  "DeleteZoneVersion env key zoneId version s =
     (let (ok, err) = version_delete env (calls s) key zoneId version;
          s' = issue (VersionDelete key zoneId version) s
      in case err of
           Some e \<Rightarrow> (Some e, s')
         | None \<Rightarrow>
             if \<not> ok then (Some (Errorf ''zone version deletion failed for unknown reason'' []), s')
             else (None, s'))"

subsection \<open>The IP resolver\<close>

definition ipify_url :: string where
  "ipify_url = ''https://api.ipify.org?format=json''"

definition getMyIP :: "env \<Rightarrow> state \<Rightarrow> (error + string) \<times> state" where
  "getMyIP env s =
     (let s' = issue (HttpGet ipify_url) s
      in case http_get env (calls s) ipify_url of
           Inl e \<Rightarrow> (Inl e, s')
         | Inr rsp \<Rightarrow>
             if StatusCode rsp \<noteq> 200
             then (Inl (Errorf ''http call failed with %d'' [VInt (StatusCode rsp)]), s')
             else case Body rsp of
                    Inl e \<Rightarrow> (Inl e, s')
                  | Inr data \<Rightarrow>
                      (case json_ip env data of
                         Inl e \<Rightarrow> (Inl e, s')
                       | Inr ip \<Rightarrow>
                           if \<not> reIP_MatchString ip
                           then (Inl (Errorf ''does not look like an IPv4: %s'' [VStruct [ip]]), s')
                           else (Inr ip, s')))"

subsection \<open>The zone update\<close>

text \<open>
  The loop of \<^verbatim>\<open>updateRecords\<close> over the records listed: a record that is not of type
  \<^verbatim>\<open>"A"\<close> or has the current address already is skipped; otherwise the copy with the
  new value is printed, the record is deleted by its identifier and the copy is added. The
  loop returns at the first error.
\<close>

fun updateRecords_loop ::
  "env \<Rightarrow> string \<Rightarrow> Record list \<Rightarrow> int \<Rightarrow> int \<Rightarrow> string \<Rightarrow> state \<Rightarrow> error option \<times> state" where
  "updateRecords_loop env key [] zoneId version ip s = (None, s)"
| "updateRecords_loop env key (r0 # rs) zoneId version ip s =
     (if Type r0 \<noteq> ''A'' \<or> Value r0 = ip then updateRecords_loop env key rs zoneId version ip s
      else
        let r = r0\<lparr>Value := ip\<rparr>;
            s1 = println [PStr ''updating'', PRecord r] s;
            ((n, err), s2) = DeleteRecord env key zoneId version (Id' r) s1
        in case err of
             Some e \<Rightarrow> (Some e, s2)
           | None \<Rightarrow>
               if n < 1 then (Some (Errorf ''no record deleted'' []), s2)
               else
                 let ((created, err), s3) = AddRecord env key zoneId version r s2
                 in case err of
                      Some e \<Rightarrow> (Some e, s3)
                    | None \<Rightarrow> updateRecords_loop env key rs zoneId version ip s3)"

text \<open>
  \<^verbatim>\<open>updateRecords\<close>: the parameter \<^verbatim>\<open>records\<close> is overwritten at once by the listing of
  the given version.
\<close>

definition updateRecords ::
  "env \<Rightarrow> string \<Rightarrow> Record list \<Rightarrow> int \<Rightarrow> int \<Rightarrow> string \<Rightarrow> state \<Rightarrow> error option \<times> state" where
  "updateRecords env key records zoneId version ip s =
     (let ((records, err), s1) = GetZoneRecords env key zoneId version s
      in case err of
           Some e \<Rightarrow> (Some e, s1)
         | None \<Rightarrow> updateRecords_loop env key records zoneId version ip s1)"

text \<open>The drift loop of \<^verbatim>\<open>checkIP\<close> (\<^verbatim>\<open>changed\<close> is set at the first differing A record).\<close>

fun changed :: "Record list \<Rightarrow> string \<Rightarrow> bool" where
  "changed [] ip = False"
| "changed (r # rs) ip = (if Type r = ''A'' \<and> Value r \<noteq> ip then True else changed rs ip)"

text \<open>
  The second half of \<^verbatim>\<open>checkIP\<close>, from \<^verbatim>\<open>newRecords := []Record{}\<close> to its end: the
  transaction on the zone, given the key, the zone, the resolved address and the records
  of the active version. The result is the error \<^verbatim>\<open>checkIP\<close> returns.
\<close>

definition checkIP_transaction ::
  "env \<Rightarrow> string \<Rightarrow> int \<Rightarrow> string \<Rightarrow> Record list \<Rightarrow> state \<Rightarrow> error option \<times> state" where
  "checkIP_transaction env key zoneId ip records s =
     (let newRecords = []
      in if \<not> changed records ip then (None, println [PStr ''unchanged ip''] s)
         else
           let ((newVersion, err), s1) = CopyZoneVersion env key zoneId s
           in case err of
                Some e \<Rightarrow> (Some e, s1)
              | None \<Rightarrow>
                  let (err, s2) = updateRecords env key newRecords zoneId newVersion ip s1
                  in case err of
                       Some e \<Rightarrow>
                         let s3 = println [PStr ''failed to apply records, deleting zone version''] s2;
                             (err2, s4) = DeleteZoneVersion env key zoneId newVersion s3
                         in (Some e,
                             case err2 of
                               Some e2 \<Rightarrow> println [PStr ''zone version deletion failed: %s'', PErr e] s4
                             | None \<Rightarrow> s4)
                     | None \<Rightarrow>
                         let (err, s3) = SetZoneVersion env key zoneId newVersion s2
                         in case err of
                              Some e \<Rightarrow>
                                (Some e, println [PStr ''zone activation failed: %s'', PErr e] s3)
                            | None \<Rightarrow>
                                (Some (Errorf ''ip changed to %s'' [VStr ip]),
                                 println [PStr ''zone activated''] s3))"

subsection \<open>The entry point\<close>

definition usage_text :: string where
  "usage_text =
     ''Usage: gandi-dyn apikey mydomain.org\<newline>\<newline>'' @
     ''gandi-dyn fetches A records from Gandi for a domain using their API. If the\<newline>'' @
     ''record value differs from the current IP obtained from a third-party service, a\<newline>'' @
     ''new zone version is created, updated with the new address and activated.\<newline>''"

text \<open>A function either returns or ends the process (\<^verbatim>\<open>os.Exit\<close>).\<close>

datatype 'a outcome = Return 'a | Exit int

text \<open>
  \<^verbatim>\<open>checkIP\<close>. When \<^verbatim>\<open>flag.Parse\<close> fails, the package has written its lines and calls
  \<^verbatim>\<open>flag.Usage\<close>, which prints the usage text and exits with status 1.
\<close>

definition checkIP :: "env \<Rightarrow> state \<Rightarrow> error option outcome \<times> state" where
  "checkIP env s =
     (case flag_parse env of
        ParseFailed msgs \<Rightarrow>
          (Exit 1, println [PStr usage_text] (s\<lparr>stderr := stderr s @ map FlagOutput msgs\<rparr>))
      | Parsed args \<Rightarrow>
          if length args < 1 then (Return (Some (Errorf ''missing api-key argument'' [])), s)
          else if length args < 2 then (Return (Some (Errorf ''missing domain argument'' [])), s)
          else
            let key = args ! 0; domain = args ! 1
            in case getMyIP env s of
                 (Inl e, s1) \<Rightarrow> (Return (Some e), s1)
               | (Inr ip, s1) \<Rightarrow>
                   let s2 = println [PStr ip] s1
                   in case new_client env of
                        Some e \<Rightarrow> (Return (Some e), s2)
                      | None \<Rightarrow>
                          let ((zoneId, err), s3) = GetZoneId env key domain s2
                          in case err of
                               Some e \<Rightarrow> (Return (Some e), s3)
                             | None \<Rightarrow>
                                 let s4 = println [PStr ''zoneid'', PInt zoneId] s3;
                                     ((records, err), s5) = GetZoneRecords env key zoneId 0 s4
                                 in case err of
                                      Some e \<Rightarrow> (Return (Some e), s5)
                                    | None \<Rightarrow>
                                        (case checkIP_transaction env key zoneId ip records s5 of
                                           (r, s6) \<Rightarrow> (Return r, s6)))"

text \<open>\<^verbatim>\<open>main\<close>: the process ends with status 0 when \<^verbatim>\<open>checkIP\<close> returns \<^verbatim>\<open>nil\<close>.\<close>

record process =
  exit_status :: int
  final :: state

definition main :: "env \<Rightarrow> process" where
  "main env =
     (case checkIP env init of
        (Exit n, s) \<Rightarrow> \<lparr>exit_status = n, final = s\<rparr>
      | (Return None, s) \<Rightarrow> \<lparr>exit_status = 0, final = s\<rparr>
      | (Return (Some err), s) \<Rightarrow>
          \<lparr>exit_status = 1, final = s\<lparr>stderr := stderr s @ [Fprintf ''err: %s\<newline>'' err]\<rparr>\<rparr>)"

subsection \<open>Vocabulary of the properties\<close>

text \<open>A record the update acts on: of type \<^verbatim>\<open>"A"\<close>, with a value other than the address.\<close>

definition differs :: "string \<Rightarrow> Record \<Rightarrow> bool" where
  "differs ip r = (Type r = ''A'' \<and> Value r \<noteq> ip)"

text \<open>The kinds of calls.\<close>

fun is_clone :: "call \<Rightarrow> bool" where
  "is_clone (VersionNew k z) = True"
| "is_clone c = False"

fun is_delete :: "call \<Rightarrow> bool" where
  "is_delete (RecordDelete k z v i) = True"
| "is_delete c = False"

fun is_add :: "call \<Rightarrow> bool" where
  "is_add (RecordAdd k z v r) = True"
| "is_add c = False"

fun is_activate :: "call \<Rightarrow> bool" where
  "is_activate (VersionSet k z v) = True"
| "is_activate c = False"

fun is_version_delete :: "call \<Rightarrow> bool" where
  "is_version_delete (VersionDelete k z v) = True"
| "is_version_delete c = False"

definition mutating :: "call \<Rightarrow> bool" where
  "mutating c = (is_clone c \<or> is_delete c \<or> is_add c \<or> is_activate c \<or> is_version_delete c)"

text \<open>
  The record sent in place of \<open>r\<close>, and the two calls made for \<open>r\<close> in a version: the
  deletion by the parsed identifier, then the addition of the replacement (none when the
  identifier does not parse).
\<close>

definition replacement :: "string \<Rightarrow> Record \<Rightarrow> NewRecord" where
  "replacement ip r = NewRecord (Type r) (Name r) ip (TTL r)"

definition pair_calls :: "string \<Rightarrow> int \<Rightarrow> int \<Rightarrow> string \<Rightarrow> Record \<Rightarrow> call list" where
  "pair_calls key zoneId version ip r =
     (case ParseInt (Id' r) of
        Inl e \<Rightarrow> []
      | Inr i \<Rightarrow>
          [RecordDelete key zoneId version i, RecordAdd key zoneId version (replacement ip r)])"

definition all_pairs :: "string \<Rightarrow> int \<Rightarrow> int \<Rightarrow> string \<Rightarrow> Record list \<Rightarrow> call list" where
  "all_pairs key zoneId version ip recs =
     concat (map (pair_calls key zoneId version ip) (filter (differs ip) recs))"

definition parses :: "Record \<Rightarrow> bool" where
  "parses r = (case ParseInt (Id' r) of Inl e \<Rightarrow> False | Inr i \<Rightarrow> True)"

text \<open>
  What the remote side answered to a call issued after the calls \<open>h\<close>: the error of a
  record deletion or addition (\<open>remote_error\<close>); the error the program makes of the
  answer, which for a deletion is also a count below one (\<open>call_failure\<close>); and whether
  a call, or each call of a sequence, went well (\<open>call_ok\<close>, \<open>all_ok\<close>).
\<close>

fun remote_error :: "env \<Rightarrow> call list \<Rightarrow> call \<Rightarrow> error option" where
  "remote_error env h (RecordDelete k z v i) = snd (record_delete env h k z v i)"
| "remote_error env h (RecordAdd k z v r) = snd (record_add env h k z v r)"
| "remote_error env h c = None"

fun call_failure :: "env \<Rightarrow> call list \<Rightarrow> call \<Rightarrow> error option" where
  "call_failure env h (RecordDelete k z v i) =
     (case snd (record_delete env h k z v i) of
        Some e \<Rightarrow> Some e
      | None \<Rightarrow>
          if fst (record_delete env h k z v i) < 1 then Some (Errorf ''no record deleted'' [])
          else None)"
| "call_failure env h (RecordAdd k z v r) = snd (record_add env h k z v r)"
| "call_failure env h c = None"

fun call_ok :: "env \<Rightarrow> call list \<Rightarrow> call \<Rightarrow> bool" where
  "call_ok env h (VersionNew k z) = (snd (version_new env h k z) = None)"
| "call_ok env h (RecordList k z v) = (snd (record_list env h k z v) = None)"
| "call_ok env h c = (call_failure env h c = None)"

fun all_ok :: "env \<Rightarrow> call list \<Rightarrow> call list \<Rightarrow> bool" where
  "all_ok env h [] = True"
| "all_ok env h (c # cs) = (call_ok env h c \<and> all_ok env (h @ [c]) cs)"

text \<open>The deletion of a version failed: an error, or the answer \<^verbatim>\<open>false\<close>.\<close>

definition rollback_failed :: "env \<Rightarrow> call list \<Rightarrow> string \<Rightarrow> int \<Rightarrow> int \<Rightarrow> bool" where
  "rollback_failed env h key z v =
     (case version_delete env h key z v of (ok, err) \<Rightarrow> (case err of Some e \<Rightarrow> True | None \<Rightarrow> \<not> ok))"

text \<open>
  A string that is a dotted quad as a whole: the pattern of \<open>reIP\<close> matched from the
  first character to the last.
\<close>

definition dotted_quad :: "string \<Rightarrow> bool" where
  "dotted_quad s = (reIP_here s = Some [])"

subsection \<open>Concrete runs\<close>

text \<open>
  The scenario of the specification: one A record \<^verbatim>\<open>1001\<close> with value \<^verbatim>\<open>1.2.3.4\<close>, a
  registrar that answers every call with success (the clone is version 7, a deletion
  removes one record, the record added gets the identifier \<^verbatim>\<open>2002\<close>). The command line,
  the address the IP service reports and the records listed are parameters.
\<close>

definition rec1 :: Record where
  "rec1 = \<lparr>Id' = ''1001'', Type = ''A'', Name = ''@'', Value = ''1.2.3.4'', TTL = 300\<rparr>"

definition rec_bad :: Record where
  "rec_bad = \<lparr>Id' = ''12x'', Type = ''A'', Name = ''www'', Value = ''1.2.3.4'', TTL = 300\<rparr>"

definition scenario :: "string list \<Rightarrow> string \<Rightarrow> Record list \<Rightarrow> env" where
  "scenario args ip recs =
     \<lparr>flag_parse = Parsed args,
      http_get = (\<lambda>h u. Inr \<lparr>StatusCode = 200, Body = Inr ip\<rparr>),
      json_ip = (\<lambda>d. Inr d),
      new_client = None,
      domain_info = (\<lambda>h k d. (42, None)),
      record_list = (\<lambda>h k z v. (recs, None)),
      version_new = (\<lambda>h k z. (7, None)),
      record_delete = (\<lambda>h k z v i. (1, None)),
      record_add = (\<lambda>h k z v r.
        (\<lparr>Id' = ''2002'', Type = nType r, Name = nName r, Value = nValue r, TTL = nTTL r\<rparr>, None)),
      version_set = (\<lambda>h k z v. (True, None)),
      version_delete = (\<lambda>h k z v. (True, None))\<rparr>"

text \<open>
  Further records (another type; an A record that has the new address already) and the
  environments of the runs evaluated below: the scenario with and without a change of
  address, with a failing addition and a failing version deletion, with a deletion that
  deletes nothing, with a failing activation, with an address that only contains a dotted
  quad, with a listing of several records, with a command line that \<^verbatim>\<open>flag.Parse\<close>
  rejects without a message of its own (as for \<^verbatim>\<open>-h\<close>), and with a failing listing of the
  active version.
\<close>

definition rec_mx :: Record where
  "rec_mx = \<lparr>Id' = ''1002'', Type = ''MX'', Name = ''@'', Value = ''10 spool.mail.gandi.net.'', TTL = 10800\<rparr>"

definition rec2 :: Record where
  "rec2 = \<lparr>Id' = ''1004'', Type = ''A'', Name = ''www'', Value = ''1.2.3.4'', TTL = 600\<rparr>"

definition rec_same :: Record where
  "rec_same = \<lparr>Id' = ''1003'', Type = ''A'', Name = ''www'', Value = ''5.6.7.8'', TTL = 300\<rparr>"

definition env_changed :: env where
  "env_changed = scenario [''k'', ''example.org''] ''5.6.7.8'' [rec1]"

definition env_unchanged :: env where
  "env_unchanged = scenario [''k'', ''example.org''] ''1.2.3.4'' [rec1]"

definition env_add_fails :: env where
  "env_add_fails = env_changed
     \<lparr>record_add := (\<lambda>h k z v r. (Record_zero, Some (LibError ''add failed''))),
      version_delete := (\<lambda>h k z v. (False, None))\<rparr>"

definition env_none_deleted :: env where
  "env_none_deleted = env_changed\<lparr>record_delete := (\<lambda>h k z v i. (0, None))\<rparr>"

definition env_activation_fails :: env where
  "env_activation_fails = env_changed\<lparr>version_set := (\<lambda>h k z v. (False, None))\<rparr>"

definition env_bad_ip :: env where
  "env_bad_ip = scenario [''k'', ''example.org''] ''x1.2.3.4y'' [rec1]"

definition env_mixed :: env where
  "env_mixed = scenario [''k'', ''example.org''] ''5.6.7.8'' [rec_mx, rec1, rec_same, rec2]"

definition env_help :: env where
  "env_help = env_changed\<lparr>flag_parse := ParseFailed []\<rparr>"

definition env_listing_fails :: env where
  "env_listing_fails = env_unchanged
     \<lparr>record_list := (\<lambda>h k z v. ([], Some (LibError ''listing failed'')))\<rparr>"

section \<open>Properties\<close>

subsection \<open>The state\<close>

lemma calls_issue: "calls (issue c s) = calls s @ [c]"
  by (simp add: issue_def)

lemma calls_println: "calls (println vs s) = calls s"
  by (simp add: println_def)

lemma stdout_issue: "stdout (issue c s) = stdout s"
  by (simp add: issue_def)

lemma stdout_println: "stdout (println vs s) = stdout s @ [Println vs]"
  by (simp add: println_def)

lemma stderr_issue: "stderr (issue c s) = stderr s"
  by (simp add: issue_def)

lemma stderr_println: "stderr (println vs s) = stderr s"
  by (simp add: println_def)

lemma changed_iff: "changed rs ip \<longleftrightarrow> (\<exists>r\<in>set rs. differs ip r)"
  by (induction rs) (auto simp: differs_def)

subsection \<open>One iteration of the update loop\<close>

text \<open>
  The five ways an iteration goes: the record is skipped; its identifier does not parse;
  the deletion fails (an error, or a count below one); the addition fails; or both calls
  succeed and the loop goes on.
\<close>

lemma loop_skip:
  "\<not> differs ip r \<Longrightarrow>
   updateRecords_loop env key (r # rs) z v ip s = updateRecords_loop env key rs z v ip s"
  by (auto simp: differs_def)

lemma loop_parse_error:
  "differs ip r \<Longrightarrow> ParseInt (Id' r) = Inl e \<Longrightarrow>
   updateRecords_loop env key (r # rs) z v ip s =
     (Some e, println [PStr ''updating'', PRecord (r\<lparr>Value := ip\<rparr>)] s)"
  by (auto simp: differs_def DeleteRecord_def)

lemma loop_delete_failure:
  "differs ip r \<Longrightarrow> ParseInt (Id' r) = Inr i \<Longrightarrow>
   call_failure env (calls s) (RecordDelete key z v i) = Some e \<Longrightarrow>
   updateRecords_loop env key (r # rs) z v ip s =
     (Some e, issue (RecordDelete key z v i)
        (println [PStr ''updating'', PRecord (r\<lparr>Value := ip\<rparr>)] s))"
  by (cases "record_delete env (calls s) key z v i")
     (auto simp: differs_def DeleteRecord_def calls_println Let_def split: option.splits if_splits)

lemma loop_add_failure:
  "differs ip r \<Longrightarrow> ParseInt (Id' r) = Inr i \<Longrightarrow>
   call_failure env (calls s) (RecordDelete key z v i) = None \<Longrightarrow>
   call_failure env (calls s @ [RecordDelete key z v i]) (RecordAdd key z v (replacement ip r)) = Some e \<Longrightarrow>
   updateRecords_loop env key (r # rs) z v ip s =
     (Some e, issue (RecordAdd key z v (replacement ip r)) (issue (RecordDelete key z v i)
        (println [PStr ''updating'', PRecord (r\<lparr>Value := ip\<rparr>)] s)))"
  by (cases "record_delete env (calls s) key z v i";
      cases "record_add env (calls s @ [RecordDelete key z v i]) key z v (replacement ip r)")
     (auto simp: differs_def DeleteRecord_def AddRecord_def replacement_def calls_println calls_issue
        Let_def split: option.splits if_splits)

lemma loop_continue:
  "differs ip r \<Longrightarrow> ParseInt (Id' r) = Inr i \<Longrightarrow>
   call_failure env (calls s) (RecordDelete key z v i) = None \<Longrightarrow>
   call_failure env (calls s @ [RecordDelete key z v i]) (RecordAdd key z v (replacement ip r)) = None \<Longrightarrow>
   updateRecords_loop env key (r # rs) z v ip s =
     updateRecords_loop env key rs z v ip
       (issue (RecordAdd key z v (replacement ip r)) (issue (RecordDelete key z v i)
        (println [PStr ''updating'', PRecord (r\<lparr>Value := ip\<rparr>)] s)))"
  by (cases "record_delete env (calls s) key z v i";
      cases "record_add env (calls s @ [RecordDelete key z v i]) key z v (replacement ip r)")
     (auto simp: differs_def DeleteRecord_def AddRecord_def replacement_def calls_println calls_issue
        Let_def split: option.splits if_splits)

declare updateRecords_loop.simps(2) [simp del]
declare call_failure.simps(1,2) [simp del]

lemma step_cases [case_names skip parse_error delete_failure add_failure continue]:
  obtains
    (skip) "\<not> differs ip r"
  | (parse_error) e where "differs ip r" "ParseInt (Id' r) = Inl e"
  | (delete_failure) i e where "differs ip r" "ParseInt (Id' r) = Inr i"
      "call_failure env h (RecordDelete key z v i) = Some e"
  | (add_failure) i e where "differs ip r" "ParseInt (Id' r) = Inr i"
      "call_failure env h (RecordDelete key z v i) = None"
      "call_failure env (h @ [RecordDelete key z v i]) (RecordAdd key z v (replacement ip r)) = Some e"
  | (continue) i where "differs ip r" "ParseInt (Id' r) = Inr i"
      "call_failure env h (RecordDelete key z v i) = None"
      "call_failure env (h @ [RecordDelete key z v i]) (RecordAdd key z v (replacement ip r)) = None"
proof (cases "differs ip r")
  case False
  then show ?thesis by (rule skip)
next
  case True
  show ?thesis
  proof (cases "ParseInt (Id' r)")
    case (Inl e)
    with True show ?thesis by (rule parse_error)
  next
    case (Inr i)
    show ?thesis
    proof (cases "call_failure env h (RecordDelete key z v i)")
      case (Some e)
      with True Inr show ?thesis by (rule delete_failure)
    next
      case None
      show ?thesis
      proof (cases "call_failure env (h @ [RecordDelete key z v i])
                      (RecordAdd key z v (replacement ip r))")
        case (Some e)
        with True Inr None show ?thesis by (rule add_failure)
      next
        case None2: None
        with True Inr None show ?thesis by (rule continue)
      qed
    qed
  qed
qed

lemma all_pairs_Nil: "all_pairs key z v ip [] = []"
  by (simp add: all_pairs_def)

lemma all_pairs_skip: "\<not> differs ip r \<Longrightarrow> all_pairs key z v ip (r # rs) = all_pairs key z v ip rs"
  by (simp add: all_pairs_def)

lemma all_pairs_parsed:
  "differs ip r \<Longrightarrow> ParseInt (Id' r) = Inr i \<Longrightarrow>
   all_pairs key z v ip (r # rs) =
     RecordDelete key z v i # RecordAdd key z v (replacement ip r) # all_pairs key z v ip rs"
  by (simp add: all_pairs_def pair_calls_def)

lemma loop_Cons_run [consumes 1, case_names skip parse_error delete_failure add_failure continue]:
  assumes run: "updateRecords_loop env key (r # rs) z v ip s = (res, s')"
  obtains
    (skip) "\<not> differs ip r" "updateRecords_loop env key rs z v ip s = (res, s')"
  | (parse_error) e where "differs ip r" "ParseInt (Id' r) = Inl e" "res = Some e"
      "calls s' = calls s" "stderr s' = stderr s"
  | (delete_failure) i e where "differs ip r" "ParseInt (Id' r) = Inr i"
      "call_failure env (calls s) (RecordDelete key z v i) = Some e" "res = Some e"
      "calls s' = calls s @ [RecordDelete key z v i]" "stderr s' = stderr s"
  | (add_failure) i e where "differs ip r" "ParseInt (Id' r) = Inr i"
      "call_failure env (calls s) (RecordDelete key z v i) = None"
      "call_failure env (calls s @ [RecordDelete key z v i]) (RecordAdd key z v (replacement ip r)) = Some e"
      "res = Some e"
      "calls s' = calls s @ [RecordDelete key z v i, RecordAdd key z v (replacement ip r)]"
      "stderr s' = stderr s"
  | (continue) i s3 where "differs ip r" "ParseInt (Id' r) = Inr i"
      "call_failure env (calls s) (RecordDelete key z v i) = None"
      "call_failure env (calls s @ [RecordDelete key z v i]) (RecordAdd key z v (replacement ip r)) = None"
      "calls s3 = calls s @ [RecordDelete key z v i, RecordAdd key z v (replacement ip r)]"
      "stderr s3 = stderr s"
      "updateRecords_loop env key rs z v ip s3 = (res, s')"
proof (cases rule: step_cases [where ip=ip and r=r and env=env and h="calls s" and key=key and z=z and v=v])
  case skip
  from run have "updateRecords_loop env key rs z v ip s = (res, s')"
    unfolding loop_skip [OF skip] .
  with skip show ?thesis by (rule that(1))
next
  case (parse_error e)
  from run have "res = Some e" "calls s' = calls s" "stderr s' = stderr s"
    unfolding loop_parse_error [OF parse_error] by (auto simp: calls_println stderr_println)
  with parse_error show ?thesis by (rule that(2))
next
  case (delete_failure i e)
  from run have "res = Some e" "calls s' = calls s @ [RecordDelete key z v i]" "stderr s' = stderr s"
    unfolding loop_delete_failure [OF delete_failure]
    by (auto simp: calls_println calls_issue stderr_println stderr_issue)
  with delete_failure show ?thesis by (rule that(3))
next
  case (add_failure i e)
  from run have "res = Some e"
    "calls s' = calls s @ [RecordDelete key z v i, RecordAdd key z v (replacement ip r)]"
    "stderr s' = stderr s"
    unfolding loop_add_failure [OF add_failure]
    by (auto simp: calls_println calls_issue stderr_println stderr_issue)
  with add_failure show ?thesis by (rule that(4))
next
  case (continue i)
  let ?s3 = "issue (RecordAdd key z v (replacement ip r)) (issue (RecordDelete key z v i)
      (println [PStr ''updating'', PRecord (r\<lparr>Value := ip\<rparr>)] s))"
  have "calls ?s3 = calls s @ [RecordDelete key z v i, RecordAdd key z v (replacement ip r)]"
    "stderr ?s3 = stderr s"
    by (simp_all add: calls_println calls_issue stderr_println stderr_issue)
  moreover from run have "updateRecords_loop env key rs z v ip ?s3 = (res, s')"
    unfolding loop_continue [OF continue] .
  ultimately show ?thesis using continue by (intro that(5)) 
qed

subsection \<open>The update loop as a whole\<close>

lemma loop_calls:
  "updateRecords_loop env key rs z v ip s = (res, s') \<Longrightarrow>
   \<exists>cs rest. calls s' = calls s @ cs \<and> cs @ rest = all_pairs key z v ip rs \<and>
     (res = None \<longrightarrow> rest = [])"
proof (induction rs arbitrary: s)
  case Nil
  then show ?case by (simp add: all_pairs_Nil)
next
  case (Cons r rs)
  from Cons.prems show ?case
  proof (cases rule: loop_Cons_run)
    case skip
    from Cons.IH [OF skip(2)] skip(1) show ?thesis by (simp add: all_pairs_skip)
  next
    case (parse_error e)
    then show ?thesis by simp
  next
    case (delete_failure i e)
    then show ?thesis by (simp add: all_pairs_parsed)
  next
    case (add_failure i e)
    then show ?thesis by (simp add: all_pairs_parsed)
  next
    case (continue i s3)
    from Cons.IH [OF continue(7)] obtain cs rest where
      "calls s' = calls s3 @ cs" "cs @ rest = all_pairs key z v ip rs" "res = None \<longrightarrow> rest = []"
      by blast
    with continue show ?thesis by (auto simp: all_pairs_parsed)
  qed
qed

lemma all_ok_append: "all_ok env h (a @ b) = (all_ok env h a \<and> all_ok env (h @ a) b)"
  by (induction a arbitrary: h) auto

lemma loop_success:
  "updateRecords_loop env key rs z v ip s = (None, s') \<Longrightarrow>
   all_ok env (calls s) (all_pairs key z v ip rs) \<and> (\<forall>r\<in>set rs. differs ip r \<longrightarrow> parses r)"
proof (induction rs arbitrary: s)
  case Nil
  then show ?case by (simp add: all_pairs_Nil)
next
  case (Cons r rs)
  from Cons.prems show ?case
  proof (cases rule: loop_Cons_run)
    case skip
    from Cons.IH [OF skip(2)] skip(1) show ?thesis by (simp add: all_pairs_skip)
  next
    case (continue i s3)
    from Cons.IH [OF continue(7)] continue show ?thesis
      by (simp add: all_pairs_parsed parses_def)
  qed simp_all
qed

lemma loop_failed_call:
  "updateRecords_loop env key rs z v ip s = (res, s') \<Longrightarrow>
   calls s' = calls s @ a @ c # b \<Longrightarrow> call_failure env (calls s @ a) c = Some e \<Longrightarrow>
   b = [] \<and> res = Some e"
proof (induction rs arbitrary: s a)
  case Nil
  then show ?case by simp
next
  case (Cons r rs)
  from Cons.prems(1) show ?case
  proof (cases rule: loop_Cons_run)
    case skip
    from Cons.IH [OF skip(2) Cons.prems(2,3)] show ?thesis .
  next
    case (parse_error e')
    with Cons.prems show ?thesis by simp
  next
    case (delete_failure i e')
    with Cons.prems show ?thesis
      by (auto simp: append_eq_Cons_conv Cons_eq_append_conv)
  next
    case (add_failure i e')
    with Cons.prems show ?thesis
      by (auto simp: append_eq_Cons_conv Cons_eq_append_conv)
  next
    case (continue i s3)
    let ?D = "RecordDelete key z v i" and ?A = "RecordAdd key z v (replacement ip r)"
    from loop_calls [OF continue(7)] continue(5) obtain cs
      where cs: "calls s' = calls s @ ?D # ?A # cs" by auto
    with Cons.prems(2) have split: "a @ c # b = ?D # ?A # cs" by simp
    have "\<exists>a'. a = ?D # ?A # a'"
    proof (cases a)
      case Nil
      with split Cons.prems(3) continue(3) show ?thesis by simp
    next
      case (Cons x a1)
      show ?thesis
      proof (cases a1)
        case Nil
        with Cons split Cons.prems(3) continue(4) show ?thesis by simp
      next
        case Cons2: (Cons y a2)
        with Cons split show ?thesis by simp
      qed
    qed
    then obtain a' where a': "a = ?D # ?A # a'" ..
    with Cons.prems(2) continue(5) have "calls s' = calls s3 @ a' @ c # b" by simp
    moreover from a' Cons.prems(3) continue(5) have "call_failure env (calls s3 @ a') c = Some e"
      by simp
    ultimately show ?thesis by (rule Cons.IH [OF continue(7)])
  qed
qed

lemma loop_stderr:
  "updateRecords_loop env key rs z v ip s = (res, s') \<Longrightarrow> stderr s' = stderr s"
proof (induction rs arbitrary: s)
  case Nil
  then show ?case by simp
next
  case (Cons r rs)
  from Cons.prems show ?case
  proof (cases rule: loop_Cons_run)
    case skip
    from Cons.IH [OF skip(2)] show ?thesis .
  next
    case (continue i s3)
    from Cons.IH [OF continue(7)] continue(6) show ?thesis by simp
  qed simp_all
qed

subsection \<open>The runs of the update and of the transaction\<close>

lemma updateRecords_run [consumes 1, case_names list_failed listed]:
  assumes run: "updateRecords env key recs0 z v ip s = (res, s')"
  obtains
    (list_failed) recs e where "record_list env (calls s) key z v = (recs, Some e)"
      "res = Some e" "s' = issue (RecordList key z v) s"
  | (listed) recs where "record_list env (calls s) key z v = (recs, None)"
      "updateRecords_loop env key recs z v ip (issue (RecordList key z v) s) = (res, s')"
proof (cases "record_list env (calls s) key z v")
  case (Pair recs err)
  show ?thesis
  proof (cases err)
    case None
    with Pair run show ?thesis
      by (intro that(2) [of recs]) (simp_all add: updateRecords_def GetZoneRecords_def)
  next
    case (Some e)
    with Pair run show ?thesis
      by (intro that(1) [of recs e]) (auto simp: updateRecords_def GetZoneRecords_def)
  qed
qed

lemma DeleteZoneVersion_calls: "calls (snd (DeleteZoneVersion env key z v s)) = calls s @ [VersionDelete key z v]"
  by (cases "version_delete env (calls s) key z v")
     (auto simp: DeleteZoneVersion_def Let_def calls_issue split: option.splits)

lemma DeleteZoneVersion_stdout: "stdout (snd (DeleteZoneVersion env key z v s)) = stdout s"
  by (cases "version_delete env (calls s) key z v")
     (auto simp: DeleteZoneVersion_def Let_def stdout_issue split: option.splits)

lemma DeleteZoneVersion_stderr: "stderr (snd (DeleteZoneVersion env key z v s)) = stderr s"
  by (cases "version_delete env (calls s) key z v")
     (auto simp: DeleteZoneVersion_def Let_def stderr_issue split: option.splits)

lemma DeleteZoneVersion_result:
  "fst (DeleteZoneVersion env key z v s) \<noteq> None \<longleftrightarrow> rollback_failed env (calls s) key z v"
  by (cases "version_delete env (calls s) key z v")
     (auto simp: DeleteZoneVersion_def Let_def rollback_failed_def split: option.splits)

lemma SetZoneVersion_calls: "calls (snd (SetZoneVersion env key z v s)) = calls s @ [VersionSet key z v]"
  by (cases "version_set env (calls s) key z v")
     (auto simp: SetZoneVersion_def Let_def calls_issue split: option.splits)

lemma SetZoneVersion_stdout: "stdout (snd (SetZoneVersion env key z v s)) = stdout s"
  by (cases "version_set env (calls s) key z v")
     (auto simp: SetZoneVersion_def Let_def stdout_issue split: option.splits)

lemma SetZoneVersion_stderr: "stderr (snd (SetZoneVersion env key z v s)) = stderr s"
  by (cases "version_set env (calls s) key z v")
     (auto simp: SetZoneVersion_def Let_def stderr_issue split: option.splits)

lemma SetZoneVersion_None:
  "fst (SetZoneVersion env key z v s) = None \<longleftrightarrow> version_set env (calls s) key z v = (True, None)"
  by (cases "version_set env (calls s) key z v")
     (auto simp: SetZoneVersion_def Let_def split: option.splits)

lemma transaction_run
  [consumes 1, case_names unchanged clone_failed apply_failed activation_failed activated]:
  assumes run: "checkIP_transaction env key z ip records s = (res, s')"
  obtains
    (unchanged) "\<not> changed records ip" "res = None" "s' = println [PStr ''unchanged ip''] s"
  | (clone_failed) v e where "changed records ip"
      "version_new env (calls s) key z = (v, Some e)" "res = Some e"
      "s' = issue (VersionNew key z) s"
  | (apply_failed) v e s2 where "changed records ip"
      "version_new env (calls s) key z = (v, None)"
      "updateRecords env key [] z v ip (issue (VersionNew key z) s) = (Some e, s2)"
      "res = Some e" "calls s' = calls s2 @ [VersionDelete key z v]" "stderr s' = stderr s2"
      "stdout s' = stdout s2 @ Println [PStr ''failed to apply records, deleting zone version''] #
         (if rollback_failed env (calls s2) key z v
          then [Println [PStr ''zone version deletion failed: %s'', PErr e]] else [])"
  | (activation_failed) v e s2 where "changed records ip"
      "version_new env (calls s) key z = (v, None)"
      "updateRecords env key [] z v ip (issue (VersionNew key z) s) = (None, s2)"
      "version_set env (calls s2) key z v \<noteq> (True, None)"
      "res = Some e" "e = the (fst (SetZoneVersion env key z v s2))"
      "calls s' = calls s2 @ [VersionSet key z v]" "stderr s' = stderr s2"
      "stdout s' = stdout s2 @ [Println [PStr ''zone activation failed: %s'', PErr e]]"
  | (activated) v s2 where "changed records ip"
      "version_new env (calls s) key z = (v, None)"
      "updateRecords env key [] z v ip (issue (VersionNew key z) s) = (None, s2)"
      "version_set env (calls s2) key z v = (True, None)"
      "res = Some (Errorf ''ip changed to %s'' [VStr ip])"
      "calls s' = calls s2 @ [VersionSet key z v]" "stderr s' = stderr s2"
      "stdout s' = stdout s2 @ [Println [PStr ''zone activated'']]"
proof (cases "changed records ip")
  case False
  with run show ?thesis
    by (intro that(1)) (auto simp: checkIP_transaction_def)
next
  case True
  obtain v err where clone: "version_new env (calls s) key z = (v, err)" by force
  show ?thesis
  proof (cases err)
    case (Some e)
    with run True clone show ?thesis
      by (intro that(2) [of v e]) (auto simp: checkIP_transaction_def CopyZoneVersion_def)
  next
    case None
    obtain r2 s2 where upd: "updateRecords env key [] z v ip (issue (VersionNew key z) s) = (r2, s2)"
      by force
    show ?thesis
    proof (cases r2)
      case (Some e)
      obtain err2 s4 where del: "DeleteZoneVersion env key z v
          (println [PStr ''failed to apply records, deleting zone version''] s2) = (err2, s4)"
        by force
      from del have s4: "calls s4 = calls s2 @ [VersionDelete key z v]"
        "stdout s4 = stdout s2 @ [Println [PStr ''failed to apply records, deleting zone version'']]"
        "stderr s4 = stderr s2"
        "err2 \<noteq> None \<longleftrightarrow> rollback_failed env (calls s2) key z v"
        using DeleteZoneVersion_calls [of env key z v "println [PStr ''failed to apply records, deleting zone version''] s2"]
          DeleteZoneVersion_stdout [of env key z v "println [PStr ''failed to apply records, deleting zone version''] s2"]
          DeleteZoneVersion_stderr [of env key z v "println [PStr ''failed to apply records, deleting zone version''] s2"]
          DeleteZoneVersion_result [of env key z v "println [PStr ''failed to apply records, deleting zone version''] s2"]
        by (simp_all add: calls_println stdout_println stderr_println)
      from run True clone None upd Some del
      have res: "res = Some e"
        and s': "s' = (case err2 of Some e2 \<Rightarrow> println [PStr ''zone version deletion failed: %s'', PErr e] s4 | None \<Rightarrow> s4)"
        by (auto simp: checkIP_transaction_def CopyZoneVersion_def)
      show ?thesis
      proof (rule that(3) [of v e s2])
        show "stdout s' = stdout s2 @ Println [PStr ''failed to apply records, deleting zone version''] #
         (if rollback_failed env (calls s2) key z v
          then [Println [PStr ''zone version deletion failed: %s'', PErr e]] else [])"
          using s' s4 by (cases err2) (auto simp: stdout_println)
        show "calls s' = calls s2 @ [VersionDelete key z v]"
          using s' s4 by (cases err2) (auto simp: calls_println)
        show "stderr s' = stderr s2"
          using s' s4 by (cases err2) (auto simp: stderr_println)
      qed (use True clone None upd Some res in simp_all)
    next
      case r2_None: None
      obtain err3 s3 where act: "SetZoneVersion env key z v s2 = (err3, s3)" by force
      from act have s3: "calls s3 = calls s2 @ [VersionSet key z v]"
        "stdout s3 = stdout s2" "stderr s3 = stderr s2"
        "err3 = None \<longleftrightarrow> version_set env (calls s2) key z v = (True, None)"
        using SetZoneVersion_calls [of env key z v s2] SetZoneVersion_stdout [of env key z v s2]
          SetZoneVersion_stderr [of env key z v s2] SetZoneVersion_None [of env key z v s2]
        by simp_all
      show ?thesis
      proof (cases err3)
        case (Some e)
        with run True clone None upd r2_None act
        have "res = Some e" "s' = println [PStr ''zone activation failed: %s'', PErr e] s3"
          by (auto simp: checkIP_transaction_def CopyZoneVersion_def)
        with s3 Some act True clone None upd r2_None show ?thesis
          by (intro that(4) [of v s2 e]) (auto simp: calls_println stdout_println stderr_println)
      next
        case err3_None: None
        with run True clone None upd r2_None act
        have "res = Some (Errorf ''ip changed to %s'' [VStr ip])"
          "s' = println [PStr ''zone activated''] s3"
          by (auto simp: checkIP_transaction_def CopyZoneVersion_def)
        with s3 err3_None act True clone None upd r2_None show ?thesis
          by (intro that(5) [of v s2]) (auto simp: calls_println stdout_println stderr_println)
      qed
    qed
  qed
qed

subsection \<open>The runs of the whole program\<close>

lemma getMyIP_state: "snd (getMyIP env s) = issue (HttpGet ipify_url) s"
  by (auto simp: getMyIP_def Let_def split: sum.splits)

lemma getMyIP_Inr: "getMyIP env s = (Inr ip, s1) \<Longrightarrow> reIP_MatchString ip"
  by (auto simp: getMyIP_def Let_def split: sum.splits if_splits)

lemma getMyIP_reads:
  "getMyIP env s = (Inr ip, s1) \<Longrightarrow>
   \<exists>rsp data. http_get env (calls s) ipify_url = Inr rsp \<and> StatusCode rsp = 200 \<and>
     Body rsp = Inr data \<and> json_ip env data = Inr ip \<and> reIP_MatchString ip"
  by (auto simp: getMyIP_def Let_def split: sum.splits if_splits)

lemma not_mutating_simps:
  "\<not> mutating (HttpGet u)" "\<not> mutating (DomainInfo k d)" "\<not> mutating (RecordList k z v)"
  by (simp_all add: mutating_def)

lemma checkIP_run [case_names usage missing early transaction]:
  obtains
    (usage) msgs where "flag_parse env = ParseFailed msgs"
      "checkIP env s = (Exit 1, println [PStr usage_text] (s\<lparr>stderr := stderr s @ map FlagOutput msgs\<rparr>))"
  | (missing) args where "flag_parse env = Parsed args" "length args < 2"
      "checkIP env s =
         (Return (Some (Errorf (if length args < 1 then ''missing api-key argument''
                                else ''missing domain argument'') [])), s)"
  | (early) args e s1 new where "flag_parse env = Parsed args" "2 \<le> length args"
      "checkIP env s = (Return (Some e), s1)" "stderr s1 = stderr s"
      "calls s1 = calls s @ new" "list_all (\<lambda>c. \<not> mutating c) new"
  | (transaction) args ip zoneId records s5 res s' where "flag_parse env = Parsed args"
      "2 \<le> length args" "getMyIP env s = (Inr ip, issue (HttpGet ipify_url) s)"
      "calls s5 = calls s @ [HttpGet ipify_url, DomainInfo (args ! 0) (args ! 1),
         RecordList (args ! 0) zoneId 0]"
      "stderr s5 = stderr s"
      "stdout s5 = stdout s @ [Println [PStr ip], Println [PStr ''zoneid'', PInt zoneId]]"
      "record_list env (calls s @ [HttpGet ipify_url, DomainInfo (args ! 0) (args ! 1)])
         (args ! 0) zoneId 0 = (records, None)"
      "checkIP_transaction env (args ! 0) zoneId ip records s5 = (res, s')"
      "checkIP env s = (Return res, s')"
      "new_client env = None"
      "domain_info env (calls s @ [HttpGet ipify_url]) (args ! 0) (args ! 1) = (zoneId, None)"
proof (cases "flag_parse env")
  case (ParseFailed msgs)
  then show ?thesis by (intro that(1) [of msgs]) (simp_all add: checkIP_def)
next
  case (Parsed args)
  show ?thesis
  proof (cases "length args < 2")
    case True
    with Parsed show ?thesis by (intro that(2) [of args]) (auto simp: checkIP_def)
  next
    case False
    then have len: "2 \<le> length args" by simp
    let ?s1 = "issue (HttpGet ipify_url) s"
    obtain r1 where ip: "getMyIP env s = (r1, ?s1)"
      using getMyIP_state [of env s] by (cases "getMyIP env s") simp
    show ?thesis
    proof (cases r1)
      case (Inl e)
      with Parsed len ip show ?thesis
        by (intro that(3) [of args e ?s1 "[HttpGet ipify_url]"])
           (auto simp: checkIP_def Let_def calls_issue stderr_issue not_mutating_simps)
    next
      case (Inr ip')
      let ?s2 = "println [PStr ip'] ?s1"
      show ?thesis
      proof (cases "new_client env")
        case (Some e)
        with Parsed len ip Inr show ?thesis
          by (intro that(3) [of args e ?s2 "[HttpGet ipify_url]"])
             (auto simp: checkIP_def Let_def calls_issue stderr_issue calls_println stderr_println
                not_mutating_simps)
      next
        case None
        let ?key = "args ! 0" and ?domain = "args ! 1"
        let ?s3 = "issue (DomainInfo ?key ?domain) ?s2"
        obtain zoneId err where zi: "domain_info env (calls ?s2) ?key ?domain = (zoneId, err)"
          by force
        show ?thesis
        proof (cases err)
          case (Some e)
          with Parsed len ip Inr None zi show ?thesis
            by (intro that(3) [of args e ?s3 "[HttpGet ipify_url, DomainInfo ?key ?domain]"])
               (auto simp: checkIP_def Let_def GetZoneId_def calls_issue stderr_issue calls_println
                  stderr_println not_mutating_simps)
        next
          case err_None: None
          let ?s4 = "println [PStr ''zoneid'', PInt zoneId] ?s3"
          let ?s5 = "issue (RecordList ?key zoneId 0) ?s4"
          obtain records err2 where rl: "record_list env (calls ?s4) ?key zoneId 0 = (records, err2)"
            by force
          show ?thesis
          proof (cases err2)
            case (Some e)
            with Parsed len ip Inr None zi err_None rl show ?thesis
              by (intro that(3) [of args e ?s5
                    "[HttpGet ipify_url, DomainInfo ?key ?domain, RecordList ?key zoneId 0]"])
                 (auto simp: checkIP_def Let_def GetZoneId_def GetZoneRecords_def calls_issue stderr_issue
                    calls_println stderr_println not_mutating_simps)
          next
            case err2_None: None
            obtain res s' where tr: "checkIP_transaction env ?key zoneId ip' records ?s5 = (res, s')"
              by force
            with Parsed len ip Inr None zi err_None rl err2_None show ?thesis
              by (intro that(4) [of args ip' ?s5 zoneId records res s'])
                 (auto simp: checkIP_def Let_def GetZoneId_def GetZoneRecords_def calls_issue stderr_issue
                    calls_println stderr_println stdout_issue stdout_println)
          qed
        qed
      qed
    qed
  qed
qed

lemma loop_append:
  "updateRecords_loop env key pre z v ip s = (None, s1) \<Longrightarrow>
   updateRecords_loop env key (pre @ rest) z v ip s = updateRecords_loop env key rest z v ip s1"
proof (induction pre arbitrary: s)
  case Nil
  then show ?case by simp
next
  case (Cons r pre)
  from Cons.prems show ?case
  proof (cases rule: loop_Cons_run)
    case skip
    from Cons.IH [OF skip(2)] skip(1) show ?thesis by (simp add: loop_skip)
  next
    case (continue i s3)
    let ?s3 = "issue (RecordAdd key z v (replacement ip r)) (issue (RecordDelete key z v i)
      (println [PStr ''updating'', PRecord (r\<lparr>Value := ip\<rparr>)] s))"
    from Cons.prems continue(1-4) have "updateRecords_loop env key pre z v ip ?s3 = (None, s1)"
      by (simp add: loop_continue)
    from Cons.IH [OF this] continue(1-4) show ?thesis by (simp add: loop_continue)
  qed simp_all
qed

lemma ParseInt_error: "ParseInt s = Inl e \<Longrightarrow> \<exists>k. e = NumError ''ParseInt'' s k"
  by (auto simp: ParseInt_def Let_def split: if_splits sum.splits)

subsection \<open>The runs of the transaction under drift\<close>

lemma split_after_prefix:
  assumes "xs @ new = h @ c # rest" and "length xs \<le> length h"
  obtains a where "h = xs @ a" and "new = a @ c # rest"
proof -
  from assms have "xs = take (length xs) h"
    by (metis append_eq_conv_conj take_all_iff take_append append_eq_append_conv_if)
  then obtain a where h: "h = xs @ a" by (metis append_take_drop_id)
  with assms(1) have "new = a @ c # rest" by simp
  with h show ?thesis by (rule that)
qed

lemma split_middle:
  assumes eq: "x # y # cs @ [l] = a0 @ c # rest"
    and ne: "c \<noteq> x" "c \<noteq> y" "c \<noteq> l"
  obtains a b where "a0 = x # y # a" and "cs = a @ c # b" and "rest = b @ [l]"
proof -
  from eq ne(1) obtain a1 where a1: "a0 = x # a1" "y # cs @ [l] = a1 @ c # rest"
    by (cases a0) auto
  from a1(2) ne(2) obtain a where a: "a1 = y # a" "cs @ [l] = a @ c # rest"
    by (cases a1) auto
  from a(2) ne(3) have "rest \<noteq> []" by (cases rest) auto
  then obtain b l' where b: "rest = b @ [l']" by (metis rev_exhaust)
  with a(2) have "cs @ [l] = (a @ c # b) @ [l']" by simp
  then have "cs = a @ c # b" "l = l'" by simp_all
  with a1(1) a(1) b show ?thesis by (intro that [of a b]) simp_all
qed

lemma call_failure_kind: "call_failure env h c = Some e \<Longrightarrow> is_delete c \<or> is_add c"
  by (cases c) simp_all

lemma remote_error_failure: "remote_error env h c = Some e \<Longrightarrow> call_failure env h c = Some e"
  by (cases c) (simp_all add: call_failure.simps)

lemma all_pairs_kinds: "c \<in> set (all_pairs key z v ip rs) \<Longrightarrow> is_delete c \<or> is_add c"
  by (auto simp: all_pairs_def pair_calls_def split: sum.splits)

lemma drift_run [consumes 2, case_names clone_failed list_failed loop_failed applied]:
  assumes run: "checkIP_transaction env key z ip records s = (res, s')"
    and drift: "changed records ip"
  obtains
    (clone_failed) v e where "version_new env (calls s) key z = (v, Some e)" "res = Some e"
      "calls s' = calls s @ [VersionNew key z]"
  | (list_failed) v recs e where "version_new env (calls s) key z = (v, None)"
      "record_list env (calls s @ [VersionNew key z]) key z v = (recs, Some e)" "res = Some e"
      "calls s' = calls s @ [VersionNew key z, RecordList key z v, VersionDelete key z v]"
      "last (stdout s') =
         (if rollback_failed env (calls s @ [VersionNew key z, RecordList key z v]) key z v
          then Println [PStr ''zone version deletion failed: %s'', PErr e]
          else Println [PStr ''failed to apply records, deleting zone version''])"
  | (loop_failed) v recs e s1 s2 cs rest where "version_new env (calls s) key z = (v, None)"
      "record_list env (calls s @ [VersionNew key z]) key z v = (recs, None)"
      "calls s1 = calls s @ [VersionNew key z, RecordList key z v]"
      "updateRecords_loop env key recs z v ip s1 = (Some e, s2)"
      "calls s2 = calls s1 @ cs" "cs @ rest = all_pairs key z v ip recs" "res = Some e"
      "calls s' = calls s @ VersionNew key z # RecordList key z v # cs @ [VersionDelete key z v]"
      "last (stdout s') =
         (if rollback_failed env (calls s @ VersionNew key z # RecordList key z v # cs) key z v
          then Println [PStr ''zone version deletion failed: %s'', PErr e]
          else Println [PStr ''failed to apply records, deleting zone version''])"
  | (applied) v recs s1 s2 where "version_new env (calls s) key z = (v, None)"
      "record_list env (calls s @ [VersionNew key z]) key z v = (recs, None)"
      "calls s1 = calls s @ [VersionNew key z, RecordList key z v]"
      "updateRecords_loop env key recs z v ip s1 = (None, s2)"
      "calls s2 = calls s1 @ all_pairs key z v ip recs"
      "calls s' = calls s @ VersionNew key z # RecordList key z v #
         all_pairs key z v ip recs @ [VersionSet key z v]"
      "res \<noteq> None"
      "version_set env (calls s2) key z v = (True, None) \<longrightarrow>
         res = Some (Errorf ''ip changed to %s'' [VStr ip])"
proof -
  let ?s0 = "issue (VersionNew key z) s"
  {
    fix v e s2
    assume clone: "version_new env (calls s) key z = (v, None)"
      and upd: "updateRecords env key [] z v ip ?s0 = (Some e, s2)"
      and res: "res = Some e" and calls: "calls s' = calls s2 @ [VersionDelete key z v]"
      and out: "stdout s' = stdout s2 @ Println [PStr ''failed to apply records, deleting zone version''] #
         (if rollback_failed env (calls s2) key z v
          then [Println [PStr ''zone version deletion failed: %s'', PErr e]] else [])"
    from upd have ?thesis
    proof (cases rule: updateRecords_run)
      case (list_failed recs e')
      with clone res calls out show ?thesis
        by (intro that(2) [of v recs e]) (auto simp: calls_issue)
    next
      case (listed recs)
      let ?s1 = "issue (RecordList key z v) ?s0"
      from loop_calls [OF listed(2)] obtain cs rest where
        cs: "calls s2 = calls ?s1 @ cs" "cs @ rest = all_pairs key z v ip recs" by blast
      with clone res calls out listed show ?thesis
        by (intro that(3) [of v recs ?s1 e s2 cs rest]) (auto simp: calls_issue)
    qed
  } note failed = this
  {
    fix v s2
    assume clone: "version_new env (calls s) key z = (v, None)"
      and upd: "updateRecords env key [] z v ip ?s0 = (None, s2)"
      and calls: "calls s' = calls s2 @ [VersionSet key z v]"
      and res: "res \<noteq> None"
        "version_set env (calls s2) key z v = (True, None) \<longrightarrow>
           res = Some (Errorf ''ip changed to %s'' [VStr ip])"
    from upd have ?thesis
    proof (cases rule: updateRecords_run)
      case (list_failed recs e')
      then show ?thesis by simp
    next
      case (listed recs)
      let ?s1 = "issue (RecordList key z v) ?s0"
      from loop_calls [OF listed(2)] have "calls s2 = calls ?s1 @ all_pairs key z v ip recs"
        by auto
      with clone calls res listed show ?thesis
        by (intro that(4) [of v recs ?s1 s2]) (auto simp: calls_issue)
    qed
  } note applied = this
  from run show ?thesis
  proof (cases rule: transaction_run)
    case unchanged
    with drift show ?thesis by simp
  next
    case (clone_failed v e)
    then show ?thesis by (intro that(1) [of v e]) (simp_all add: calls_issue)
  next
    case (apply_failed v e s2)
    then show ?thesis by (intro failed [of v e s2])
  next
    case (activation_failed v e s2)
    then show ?thesis by (intro applied [of v s2]) simp_all
  next
    case (activated v s2)
    then show ?thesis by (intro applied [of v s2]) simp_all
  qed
qed

lemma loop_error_cause:
  "updateRecords_loop env key rs z v ip s = (Some e, s') \<Longrightarrow> calls s' = calls s @ cs \<Longrightarrow>
   all_ok env (calls s) cs \<Longrightarrow> \<exists>r\<in>set rs. differs ip r \<and> \<not> parses r"
proof (induction rs arbitrary: s cs)
  case Nil
  then show ?case by simp
next
  case (Cons r rs)
  from Cons.prems(1) show ?case
  proof (cases rule: loop_Cons_run)
    case skip
    from Cons.IH [OF skip(2) Cons.prems(2,3)] show ?thesis by auto
  next
    case (parse_error e')
    then show ?thesis by (auto simp: parses_def)
  next
    case (delete_failure i e')
    with Cons.prems(2,3) show ?thesis by auto
  next
    case (add_failure i e')
    with Cons.prems(2,3) show ?thesis by auto
  next
    case (continue i s3)
    from loop_calls [OF continue(7)] obtain cs' where cs': "calls s' = calls s3 @ cs'" by blast
    with continue(5) Cons.prems(2) have "cs = RecordDelete key z v i # RecordAdd key z v (replacement ip r) # cs'"
      by simp
    with Cons.prems(3) continue(5) have "all_ok env (calls s3) cs'" by simp
    from Cons.IH [OF continue(7) cs' this] show ?thesis by auto
  qed
qed

lemma filter_pairs:
  "filter is_clone (all_pairs key z v ip rs) = []"
  "filter is_activate (all_pairs key z v ip rs) = []"
  "filter is_version_delete (all_pairs key z v ip rs) = []"
  by (auto simp: filter_empty_conv all_pairs_def pair_calls_def split: sum.splits)

lemma filter_prefix_Nil: "cs @ rest = xs \<Longrightarrow> filter P xs = [] \<Longrightarrow> filter P cs = []"
  by auto

lemma transaction_failed_call:
  assumes run: "checkIP_transaction env key z ip records s = (res, s')"
    and split: "calls s' = h @ c # rest" and len: "length (calls s) \<le> length h"
    and fail: "call_failure env h c = Some e"
  defines "v \<equiv> fst (version_new env (calls s) key z)"
  shows "res = Some e \<and> rest = [VersionDelete key z v] \<and>
         filter is_version_delete (drop (length (calls s)) (calls s')) = [VersionDelete key z v] \<and>
         last (stdout s') =
           (if rollback_failed env (h @ [c]) key z v
            then Println [PStr ''zone version deletion failed: %s'', PErr e]
            else Println [PStr ''failed to apply records, deleting zone version''])"
proof -
  from fail have kind: "is_delete c \<or> is_add c" by (rule call_failure_kind)
  have drift: "changed records ip"
  proof (rule ccontr)
    assume "\<not> changed records ip"
    with run have "calls s' = calls s" by (auto simp: checkIP_transaction_def calls_println)
    with split len show False by simp
  qed
  from run drift show ?thesis
  proof (cases rule: drift_run)
    case (clone_failed v' e')
    with split have "calls s @ [VersionNew key z] = h @ c # rest" by simp
    from this len obtain a where "[VersionNew key z] = a @ c # rest"
      by (rule split_after_prefix)
    with kind show ?thesis by (cases a) auto
  next
    case (list_failed v' recs e')
    with split have "calls s @ [VersionNew key z, RecordList key z v', VersionDelete key z v'] = h @ c # rest"
      by simp
    from this len obtain a where "[VersionNew key z, RecordList key z v', VersionDelete key z v'] = a @ c # rest"
      by (rule split_after_prefix)
    then have "c \<in> set [VersionNew key z, RecordList key z v', VersionDelete key z v']"
      by (metis in_set_conv_decomp)
    with kind show ?thesis by auto
  next
    case (loop_failed v' recs e' s1 s2 cs rest')
    have v': "v' = v" using loop_failed(1) by (simp add: v_def)
    from split loop_failed(8)
    have "calls s @ (VersionNew key z # RecordList key z v' # cs @ [VersionDelete key z v']) = h @ c # rest"
      by simp
    from this len obtain a0 where a0: "h = calls s @ a0"
      "VersionNew key z # RecordList key z v' # cs @ [VersionDelete key z v'] = a0 @ c # rest"
      by (rule split_after_prefix)
    from kind have ne: "c \<noteq> VersionNew key z" "c \<noteq> RecordList key z v'" "c \<noteq> VersionDelete key z v'"
      by auto
    from a0(2) ne obtain a b where ab: "a0 = VersionNew key z # RecordList key z v' # a"
      "cs = a @ c # b" "rest = b @ [VersionDelete key z v']"
      by (rule split_middle)
    from ab(2) loop_failed(5) have "calls s2 = calls s1 @ a @ c # b" by simp
    moreover from fail a0(1) ab(1) loop_failed(3) have "call_failure env (calls s1 @ a) c = Some e"
      by simp
    ultimately have "b = [] \<and> Some e' = Some e" by (rule loop_failed_call [OF loop_failed(4)])
    moreover have "filter is_version_delete cs = []"
      using loop_failed(6) filter_pairs(3) [of key z v' ip recs] by (rule filter_prefix_Nil)
    ultimately show ?thesis using loop_failed(7,8,9) ab a0(1) v'
      by (auto split: if_splits)
  next
    case (applied v' recs s1 s2)
    from split applied(6)
    have "calls s @ (VersionNew key z # RecordList key z v' # all_pairs key z v' ip recs @ [VersionSet key z v']) = h @ c # rest"
      by simp
    from this len obtain a0 where a0: "h = calls s @ a0"
      "VersionNew key z # RecordList key z v' # all_pairs key z v' ip recs @ [VersionSet key z v'] = a0 @ c # rest"
      by (rule split_after_prefix)
    from kind have ne: "c \<noteq> VersionNew key z" "c \<noteq> RecordList key z v'" "c \<noteq> VersionSet key z v'"
      by auto
    from a0(2) ne obtain a b where ab: "a0 = VersionNew key z # RecordList key z v' # a"
      "all_pairs key z v' ip recs = a @ c # b" "rest = b @ [VersionSet key z v']"
      by (rule split_middle)
    from ab(2) applied(5) have "calls s2 = calls s1 @ a @ c # b" by simp
    moreover from fail a0(1) ab(1) applied(3) have "call_failure env (calls s1 @ a) c = Some e"
      by simp
    ultimately have "b = [] \<and> None = Some e" by (rule loop_failed_call [OF applied(4)])
    then show ?thesis by simp
  qed
qed

subsection \<open>Further facts about whole runs\<close>

lemma all_pairs_origin:
  "c \<in> set (all_pairs key z v ip rs) \<Longrightarrow>
   \<exists>r\<in>set rs. differs ip r \<and>
     ((\<exists>i. ParseInt (Id' r) = Inr i \<and> c = RecordDelete key z v i) \<or>
      c = RecordAdd key z v (replacement ip r))"
  by (auto simp: all_pairs_def pair_calls_def split: sum.splits)

lemma transaction_stderr:
  assumes "checkIP_transaction env key z ip records s = (res, s')"
  shows "stderr s' = stderr s"
  using assms
proof (cases rule: transaction_run)
  case unchanged
  then show ?thesis by (simp add: stderr_println)
next
  case (clone_failed v e)
  then show ?thesis by (simp add: stderr_issue)
next
  case (apply_failed v e s2)
  from apply_failed(3) have "stderr s2 = stderr s"
    by (cases rule: updateRecords_run) (auto simp: stderr_issue dest: loop_stderr)
  with apply_failed show ?thesis by simp
next
  case (activation_failed v e s2)
  from activation_failed(3) have "stderr s2 = stderr s"
    by (cases rule: updateRecords_run) (auto simp: stderr_issue dest: loop_stderr)
  with activation_failed show ?thesis by simp
next
  case (activated v s2)
  from activated(3) have "stderr s2 = stderr s"
    by (cases rule: updateRecords_run) (auto simp: stderr_issue dest: loop_stderr)
  with activated show ?thesis by simp
qed

lemma checkIP_Return_stderr:
  "checkIP env s = (Return r, s') \<Longrightarrow> stderr s' = stderr s"
  by (cases rule: checkIP_run [of env s]) (auto dest: transaction_stderr)

lemma transaction_None:
  assumes "checkIP_transaction env key z ip records s = (None, s')"
  shows "s' = println [PStr ''unchanged ip''] s"
  using assms by (cases rule: transaction_run) simp_all

lemma checkIP_Return_None:
  assumes "checkIP env s = (Return None, s')"
  shows "\<exists>new. calls s' = calls s @ new \<and> list_all (\<lambda>c. \<not> mutating c) new \<and>
           last (stdout s') = Println [PStr ''unchanged ip'']"
proof (cases rule: checkIP_run [of env s])
  case (transaction args ip zoneId records s5 res s'')
  with assms have "checkIP_transaction env (args ! 0) zoneId ip records s5 = (None, s')" by simp
  then have "s' = println [PStr ''unchanged ip''] s5" by (rule transaction_None)
  with transaction(4) show ?thesis
    by (simp add: calls_println stdout_println not_mutating_simps)
qed (use assms in simp_all)

lemma last_call_activation:
  assumes run: "checkIP_transaction env key z ip records s = (res, s')"
    and drift: "changed records ip"
    and last: "calls s' = h @ [VersionSet k z' v]"
    and ok: "version_set env h k z' v = (True, None)"
  shows "res = Some (Errorf ''ip changed to %s'' [VStr ip])"
  using run drift
proof (cases rule: drift_run)
  case (clone_failed v' e)
  with last show ?thesis by simp
next
  case (list_failed v' recs e)
  with last show ?thesis by simp
next
  case (loop_failed v' recs e s1 s2 cs rest)
  from loop_failed(8) last
  have "(calls s @ VersionNew key z # RecordList key z v' # cs) @ [VersionDelete key z v'] =
      h @ [VersionSet k z' v]" by simp
  then show ?thesis by (simp only: append1_eq_conv) simp
next
  case (applied v' recs s1 s2)
  from applied(6) last
  have "(calls s @ VersionNew key z # RecordList key z v' # all_pairs key z v' ip recs) @
      [VersionSet key z v'] = h @ [VersionSet k z' v]" by simp
  then have "calls s @ VersionNew key z # RecordList key z v' # all_pairs key z v' ip recs = h"
    and "VersionSet key z v' = VersionSet k z' v"
    by (simp_all only: append1_eq_conv)
  with applied(3,5) have "h = calls s2" "k = key" "z' = z" "v = v'" by auto
  with ok applied(8) show ?thesis by simp
qed

lemma written_value_matches:
  assumes "RecordAdd k z v nr \<in> set (calls (final (main env)))"
  shows "nType nr = ''A'' \<and> reIP_MatchString (nValue nr)"
proof -
  obtain r s' where run: "checkIP env init = (r, s')" by force
  then have cs: "calls (final (main env)) = calls s'"
    by (auto simp: main_def split: outcome.splits option.splits)
  show ?thesis
  proof (cases rule: checkIP_run [of env init])
    case (usage msgs)
    with run cs assms show ?thesis by (simp add: calls_println init_def)
  next
    case (missing args)
    with run cs assms show ?thesis by (simp add: init_def)
  next
    case (early args e s1 new)
    with run cs assms have "RecordAdd k z v nr \<in> set new" by (simp add: init_def)
    with early(6) show ?thesis by (auto simp: list_all_iff mutating_def)
  next
    case (transaction args ip zoneId records s5 res s'')
    from transaction(3) have ip: "reIP_MatchString ip" by (rule getMyIP_Inr)
    from assms cs run transaction(9) have mem: "RecordAdd k z v nr \<in> set (calls s'')" by simp
    from transaction(4) have s5: "RecordAdd k z v nr \<notin> set (calls s5)" by (auto simp: init_def)
    have "\<exists>ver recs. RecordAdd k z v nr \<in> set (all_pairs (args ! 0) zoneId ver ip recs)"
    proof (cases "changed records ip")
      case False
      with transaction(8) have "calls s'' = calls s5"
        by (auto simp: checkIP_transaction_def calls_println)
      with mem s5 show ?thesis by simp
    next
      case True
      with transaction(8) show ?thesis
      proof (cases rule: drift_run)
        case (clone_failed v' e)
        with mem s5 show ?thesis by simp
      next
        case (list_failed v' recs e)
        with mem s5 show ?thesis by simp
      next
        case (loop_failed v' recs e s1 s2 cs rest)
        with mem s5 have "RecordAdd k z v nr \<in> set cs" by simp
        with loop_failed(6) have "RecordAdd k z v nr \<in> set (all_pairs (args ! 0) zoneId v' ip recs)"
          by (metis Un_iff set_append)
        then show ?thesis by blast
      next
        case (applied v' recs s1 s2)
        with mem s5 have "RecordAdd k z v nr \<in> set (all_pairs (args ! 0) zoneId v' ip recs)"
          by simp
        then show ?thesis by blast
      qed
    qed
    then obtain ver recs where "RecordAdd k z v nr \<in> set (all_pairs (args ! 0) zoneId ver ip recs)"
      by blast
    from all_pairs_origin [OF this] ip show ?thesis
      by (auto simp: replacement_def differs_def)
  qed
qed

lemma quiet_run_exit:
  assumes args: "flag_parse env = Parsed args" "2 \<le> length args"
    and http: "http_get env [] ipify_url = Inr rsp" "StatusCode rsp = 200" "Body rsp = Inr data"
      "json_ip env data = Inr ip" "reIP_MatchString ip"
    and client: "new_client env = None"
    and zone: "domain_info env [HttpGet ipify_url] (args ! 0) (args ! 1) = (zoneId, None)"
    and listing: "record_list env [HttpGet ipify_url, DomainInfo (args ! 0) (args ! 1)]
        (args ! 0) zoneId 0 = (records, None)"
    and same: "\<forall>r\<in>set records. Type r = ''A'' \<longrightarrow> Value r = ip"
  shows "fst (checkIP env init) = Return None"
proof -
  from same have "\<not> changed records ip" by (auto simp: changed_iff differs_def)
  with args http client zone listing show ?thesis
    by (auto simp: checkIP_def getMyIP_def Let_def GetZoneId_def GetZoneRecords_def
        checkIP_transaction_def init_def issue_def println_def)
qed

lemma exit_zero_reads:
  assumes "fst (checkIP env init) = Return None"
  shows "\<exists>args rsp data ip zoneId records.
     flag_parse env = Parsed args \<and> 2 \<le> length args \<and>
     http_get env [] ipify_url = Inr rsp \<and> StatusCode rsp = 200 \<and> Body rsp = Inr data \<and>
     json_ip env data = Inr ip \<and> reIP_MatchString ip \<and> new_client env = None \<and>
     domain_info env [HttpGet ipify_url] (args ! 0) (args ! 1) = (zoneId, None) \<and>
     record_list env [HttpGet ipify_url, DomainInfo (args ! 0) (args ! 1)]
       (args ! 0) zoneId 0 = (records, None) \<and>
     (\<forall>r\<in>set records. Type r = ''A'' \<longrightarrow> Value r = ip)"
proof (cases rule: checkIP_run [of env init])
  case (transaction args ip zoneId records s5 res s')
  with assms have "res = None" by simp
  with transaction(8) have "\<not> changed records ip"
    by (cases rule: transaction_run) simp_all
  then have same: "\<forall>r\<in>set records. Type r = ''A'' \<longrightarrow> Value r = ip"
    by (auto simp: changed_iff differs_def)
  from getMyIP_reads [OF transaction(3)] obtain rsp data where
    "http_get env [] ipify_url = Inr rsp" "StatusCode rsp = 200" "Body rsp = Inr data"
    "json_ip env data = Inr ip" "reIP_MatchString ip"
    by (auto simp: init_def)
  with transaction(1,2,7,10,11) same show ?thesis
    by (auto simp: init_def)
qed (use assms in simp_all)


section \<open>The claims\<close>

subsection \<open>Clone, pairs, activation\<close>

text \<open>
  Claim C1. Let the records of the active version contain an A record whose value is not
  the resolved address, and let \<open>new\<close> be the calls the transaction then issues. The
  first of them is the clone, and it is the only clone. Let \<open>v\<close> be the version the
  clone returned and \<open>recs\<close> the listing of \<open>v\<close>. At most one activation is issued. If
  one is, every call before it succeeded, every differing A record of \<open>recs\<close> has an
  identifier that parses, and \<open>new\<close> is exactly: the clone, the listing of \<open>v\<close>, for
  each differing A record of \<open>recs\<close> in order its deletion and then the addition of its
  replacement, and last the activation of \<open>v\<close>. Conversely, when every call issued
  succeeded and the identifiers parse, the run is that one.
\<close>

theorem C1_clone_pairs_activate:
  assumes run: "checkIP_transaction env key zoneId ip records s = (res, s')"
    and drift: "\<exists>r\<in>set records. Type r = ''A'' \<and> Value r \<noteq> ip"
  defines "v \<equiv> fst (version_new env (calls s) key zoneId)"
  defines "recs \<equiv> fst (record_list env (calls s @ [VersionNew key zoneId]) key zoneId v)"
  defines "full \<equiv> [VersionNew key zoneId, RecordList key zoneId v] @
                   all_pairs key zoneId v ip recs @ [VersionSet key zoneId v]"
  shows "\<exists>new. calls s' = calls s @ new \<and>
           hd new = VersionNew key zoneId \<and> filter is_clone new = [VersionNew key zoneId] \<and>
           length (filter is_activate new) \<le> 1 \<and>
           ((\<exists>c\<in>set new. is_activate c) \<longrightarrow>
              new = full \<and> all_ok env (calls s) new \<and> (\<forall>r\<in>set recs. differs ip r \<longrightarrow> parses r)) \<and>
           (all_ok env (calls s) new \<and> (\<forall>r\<in>set recs. differs ip r \<longrightarrow> parses r) \<longrightarrow> new = full)"
proof -
  from drift have "changed records ip" by (auto simp: changed_iff differs_def)
  with run show ?thesis
  proof (cases rule: drift_run)
    case (clone_failed v' e)
    then show ?thesis by simp
  next
    case (list_failed v' recs' e)
    then show ?thesis by (simp add: v_def)
  next
    case (loop_failed v' recs' e s1 s2 cs rest)
    have v': "v' = v" and recs': "recs' = recs" using loop_failed(1,2) by (simp_all add: v_def recs_def)
    have cs: "filter is_clone cs = []" "filter is_activate cs = []"
      using loop_failed(6) filter_pairs(1,2) [of key zoneId v' ip recs'] by (auto intro: filter_prefix_Nil)
    have "\<not> (all_ok env (calls s) (VersionNew key zoneId # RecordList key zoneId v' # cs @ [VersionDelete key zoneId v'])
            \<and> (\<forall>r\<in>set recs. differs ip r \<longrightarrow> parses r))"
    proof
      assume a: "all_ok env (calls s) (VersionNew key zoneId # RecordList key zoneId v' # cs @ [VersionDelete key zoneId v'])
            \<and> (\<forall>r\<in>set recs. differs ip r \<longrightarrow> parses r)"
      then have "all_ok env (calls s1) cs" using loop_failed(3) by (simp add: all_ok_append)
      from loop_error_cause [OF loop_failed(4,5) this] a recs' show False by auto
    qed
    with loop_failed(8) cs show ?thesis
      by (intro exI [of _ "VersionNew key zoneId # RecordList key zoneId v' # cs @ [VersionDelete key zoneId v']"])
         (auto simp: filter_empty_conv)
  next
    case (applied v' recs' s1 s2)
    have v': "v' = v" and recs': "recs' = recs" using applied(1,2) by (simp_all add: v_def recs_def)
    from loop_success [OF applied(4)] applied(3)
    have ok: "all_ok env (calls s @ [VersionNew key zoneId, RecordList key zoneId v]) (all_pairs key zoneId v ip recs)"
      and parse: "\<forall>r\<in>set recs. differs ip r \<longrightarrow> parses r"
      by (simp_all add: v' recs')
    from applied(1,2) have "call_ok env (calls s) (VersionNew key zoneId)"
      "call_ok env (calls s @ [VersionNew key zoneId]) (RecordList key zoneId v)"
      by (simp_all add: v')
    with ok have "all_ok env (calls s) full"
      by (simp add: full_def all_ok_append)
    with parse applied(6) show ?thesis
      by (intro exI [of _ full]) (simp add: full_def v' recs' filter_pairs)
  qed
qed

theorem C1_clone_pairs_activate_witness:
  "Type rec1 = ''A'' \<and> Value rec1 \<noteq> ''5.6.7.8'' \<and>
   fst (checkIP_transaction env_changed ''k'' 42 ''5.6.7.8'' [rec1] init) =
     Some (Errorf ''ip changed to %s'' [VStr ''5.6.7.8'']) \<and>
   calls (snd (checkIP_transaction env_changed ''k'' 42 ''5.6.7.8'' [rec1] init)) =
     [VersionNew ''k'' 42, RecordList ''k'' 42 7, RecordDelete ''k'' 42 7 1001,
      RecordAdd ''k'' 42 7 (NewRecord ''A'' ''@'' ''5.6.7.8'' 300), VersionSet ''k'' 42 7] \<and>
   (\<exists>new. calls (snd (checkIP_transaction env_changed ''k'' 42 ''5.6.7.8'' [rec1] init)) = calls init @ new \<and>
      hd new = VersionNew ''k'' 42 \<and> filter is_clone new = [VersionNew ''k'' 42] \<and>
      length (filter is_activate new) \<le> 1 \<and> all_ok env_changed (calls init) new) \<and>
   parses rec1"
proof -
  have drift: "\<exists>r\<in>set [rec1]. Type r = ''A'' \<and> Value r \<noteq> ''5.6.7.8''"
    by (simp add: rec1_def)
  have run: "checkIP_transaction env_changed ''k'' 42 ''5.6.7.8'' [rec1] init =
    (fst (checkIP_transaction env_changed ''k'' 42 ''5.6.7.8'' [rec1] init),
     snd (checkIP_transaction env_changed ''k'' 42 ''5.6.7.8'' [rec1] init))"
    by simp
  have res: "fst (checkIP_transaction env_changed ''k'' 42 ''5.6.7.8'' [rec1] init) =
     Some (Errorf ''ip changed to %s'' [VStr ''5.6.7.8''])"
    by code_simp
  have cs: "calls (snd (checkIP_transaction env_changed ''k'' 42 ''5.6.7.8'' [rec1] init)) =
     [VersionNew ''k'' 42, RecordList ''k'' 42 7, RecordDelete ''k'' 42 7 1001,
      RecordAdd ''k'' 42 7 (NewRecord ''A'' ''@'' ''5.6.7.8'' 300), VersionSet ''k'' 42 7]"
    by code_simp
  have ok: "all_ok env_changed (calls init)
     [VersionNew ''k'' 42, RecordList ''k'' 42 7, RecordDelete ''k'' 42 7 1001,
      RecordAdd ''k'' 42 7 (NewRecord ''A'' ''@'' ''5.6.7.8'' 300), VersionSet ''k'' 42 7]"
    by code_simp
  have p: "parses rec1" by code_simp
  have i: "calls init = []" by (simp add: init_def)
  from C1_clone_pairs_activate [OF run drift] obtain new where
    new: "calls (snd (checkIP_transaction env_changed ''k'' 42 ''5.6.7.8'' [rec1] init)) =
        calls init @ new"
      "hd new = VersionNew ''k'' 42" "filter is_clone new = [VersionNew ''k'' 42]"
      "length (filter is_activate new) \<le> 1"
    by blast
  from new(1) cs i have "new = [VersionNew ''k'' 42, RecordList ''k'' 42 7,
      RecordDelete ''k'' 42 7 1001, RecordAdd ''k'' 42 7 (NewRecord ''A'' ''@'' ''5.6.7.8'' 300),
      VersionSet ''k'' 42 7]"
    by simp
  with ok have "all_ok env_changed (calls init) new" by simp
  with new have "\<exists>new. calls (snd (checkIP_transaction env_changed ''k'' 42 ''5.6.7.8'' [rec1] init)) =
        calls init @ new \<and>
      hd new = VersionNew ''k'' 42 \<and> filter is_clone new = [VersionNew ''k'' 42] \<and>
      length (filter is_activate new) \<le> 1 \<and> all_ok env_changed (calls init) new"
    by blast
  with res cs p show ?thesis by (simp add: rec1_def)
qed

subsection \<open>Rollback keeps the first error\<close>

text \<open>
  Claim C2. Suppose a record deletion or addition \<open>c\<close> issued by the transaction (after
  the calls \<open>h\<close>) was answered with an error \<open>e\<close>. Then \<open>c\<close> is followed by exactly
  one more call, the deletion of the cloned version \<open>v\<close>, which is the only
  delete-version call of the transaction, and the transaction returns \<open>e\<close>. When that
  deletion fails too, the transaction still returns \<open>e\<close>, and the last line printed is
  \<^verbatim>\<open>zone version deletion failed\<close>.
\<close>

theorem C2_rollback_keeps_error:
  assumes run: "checkIP_transaction env key zoneId ip records s = (res, s')"
    and split: "calls s' = h @ c # rest" and len: "length (calls s) \<le> length h"
    and fail: "remote_error env h c = Some e"
  defines "v \<equiv> fst (version_new env (calls s) key zoneId)"
  shows "res = Some e \<and> rest = [VersionDelete key zoneId v] \<and>
         filter is_version_delete (drop (length (calls s)) (calls s')) = [VersionDelete key zoneId v] \<and>
         (rollback_failed env (h @ [c]) key zoneId v \<longrightarrow>
            res = Some e \<and>
            last (stdout s') = Println [PStr ''zone version deletion failed: %s'', PErr e])"
proof -
  from fail have f: "call_failure env h c = Some e" by (rule remote_error_failure)
  from transaction_failed_call [OF run split len f]
  have main: "res = Some e" "rest = [VersionDelete key zoneId v]"
    "filter is_version_delete (drop (length (calls s)) (calls s')) = [VersionDelete key zoneId v]"
    "rollback_failed env (h @ [c]) key zoneId v \<longrightarrow>
       last (stdout s') = Println [PStr ''zone version deletion failed: %s'', PErr e]"
    by (simp_all add: v_def)
  then show ?thesis by simp
qed

theorem C2_rollback_keeps_error_witness:
  "fst (checkIP_transaction env_add_fails ''k'' 42 ''5.6.7.8'' [rec1] init) = Some (LibError ''add failed'') \<and>
   calls (snd (checkIP_transaction env_add_fails ''k'' 42 ''5.6.7.8'' [rec1] init)) =
     [VersionNew ''k'' 42, RecordList ''k'' 42 7, RecordDelete ''k'' 42 7 1001] @
     RecordAdd ''k'' 42 7 (NewRecord ''A'' ''@'' ''5.6.7.8'' 300) # [VersionDelete ''k'' 42 7] \<and>
   remote_error env_add_fails [VersionNew ''k'' 42, RecordList ''k'' 42 7, RecordDelete ''k'' 42 7 1001]
     (RecordAdd ''k'' 42 7 (NewRecord ''A'' ''@'' ''5.6.7.8'' 300)) = Some (LibError ''add failed'') \<and>
   rollback_failed env_add_fails
     ([VersionNew ''k'' 42, RecordList ''k'' 42 7, RecordDelete ''k'' 42 7 1001] @
      [RecordAdd ''k'' 42 7 (NewRecord ''A'' ''@'' ''5.6.7.8'' 300)]) ''k'' 42 7 \<and>
   last (stdout (snd (checkIP_transaction env_add_fails ''k'' 42 ''5.6.7.8'' [rec1] init))) =
     Println [PStr ''zone version deletion failed: %s'', PErr (LibError ''add failed'')]"
proof -
  let ?run = "checkIP_transaction env_add_fails ''k'' 42 ''5.6.7.8'' [rec1] init"
  let ?h = "[VersionNew ''k'' 42, RecordList ''k'' 42 7, RecordDelete ''k'' 42 7 1001]"
  let ?c = "RecordAdd ''k'' 42 7 (NewRecord ''A'' ''@'' ''5.6.7.8'' 300)"
  have run: "?run = (fst ?run, snd ?run)" by simp
  have cs: "calls (snd ?run) = ?h @ ?c # [VersionDelete ''k'' 42 7]" by code_simp
  have len: "length (calls init) \<le> length ?h" by (simp add: init_def)
  have fail: "remote_error env_add_fails ?h ?c = Some (LibError ''add failed'')" by code_simp
  have v: "fst (version_new env_add_fails (calls init) ''k'' 42) = 7" by code_simp
  have rb: "rollback_failed env_add_fails (?h @ [?c]) ''k'' 42 7" by code_simp
  from C2_rollback_keeps_error [OF run cs len fail] cs fail rb v show ?thesis by simp
qed

subsection \<open>No drift, no mutation\<close>

text \<open>
  Claim C3. When no record of type \<^verbatim>\<open>"A"\<close> in the records listed has a value other than
  the resolved address (in particular when there is no A record at all), the transaction
  returns \<^verbatim>\<open>nil\<close>, prints \<^verbatim>\<open>unchanged ip\<close> and issues no call: no clone, no
  record deletion or addition, no activation.
\<close>

theorem C3_unchanged_no_mutation:
  assumes "\<forall>r\<in>set records. Type r = ''A'' \<longrightarrow> Value r = ip"
  shows "checkIP_transaction env key zoneId ip records s = (None, println [PStr ''unchanged ip''] s) \<and>
         calls (snd (checkIP_transaction env key zoneId ip records s)) = calls s"
proof -
  from assms have "\<not> changed records ip" by (auto simp: changed_iff differs_def)
  then show ?thesis by (simp add: checkIP_transaction_def calls_println)
qed

theorem C3_unchanged_no_mutation_witness:
  "Value rec1 = ''1.2.3.4'' \<and>
   checkIP_transaction (scenario [''k'', ''example.org''] ''1.2.3.4'' [rec1]) ''k'' 42 ''1.2.3.4'' [rec1] init =
     (None, \<lparr>calls = [], stdout = [Println [PStr ''unchanged ip'']], stderr = []\<rparr>)"
  using C3_unchanged_no_mutation [of "[rec1]" "''1.2.3.4''"
      "scenario [''k'', ''example.org''] ''1.2.3.4'' [rec1]" "''k''" 42 init]
  by (simp add: rec1_def init_def println_def)

subsection \<open>Delete, then add the replacement\<close>

text \<open>
  Claim C4. Let \<open>recs\<close> be the records \<^verbatim>\<open>updateRecords\<close> lists in the given version.
  After the listing, the calls it issues are an initial part of this sequence: for each
  record of \<open>recs\<close> of type \<^verbatim>\<open>"A"\<close> with a value other than the address, in order,
  the deletion of the record by its identifier and then the addition of a record with the
  same type, name and TTL and the address as value. The record added is a
  \<^verbatim>\<open>NewRecord\<close>, which has no identifier field. When every call issued was answered
  with success and the identifiers of those records parse, \<^verbatim>\<open>updateRecords\<close> returns
  \<^verbatim>\<open>nil\<close> and the sequence was issued in full: every such record was deleted and
  re-added. Conversely, when it returns \<^verbatim>\<open>nil\<close> the sequence was issued in full, every
  call succeeded, and each pair is these two calls. In every case each call issued after
  the listing is the deletion or the addition for such a record: records of other types
  and records that have the address already are left alone.
\<close>

theorem C4_delete_then_add:
  assumes run: "updateRecords env key records zoneId version ip s = (res, s')"
    and listing: "record_list env (calls s) key zoneId version = (recs, None)"
  shows "\<exists>cs rest. calls s' = calls s @ RecordList key zoneId version # cs \<and>
           cs @ rest = concat (map (pair_calls key zoneId version ip) (filter (differs ip) recs)) \<and>
           (all_ok env (calls s @ [RecordList key zoneId version]) cs \<and>
            (\<forall>r\<in>set recs. differs ip r \<longrightarrow> parses r) \<longrightarrow> res = None \<and> rest = []) \<and>
           (res = None \<longrightarrow> rest = [] \<and>
              all_ok env (calls s @ [RecordList key zoneId version]) cs \<and>
              (\<forall>r\<in>set recs. differs ip r \<longrightarrow>
              (\<exists>i. pair_calls key zoneId version ip r =
                 [RecordDelete key zoneId version i,
                  RecordAdd key zoneId version (NewRecord (Type r) (Name r) ip (TTL r))] \<and>
                 ParseInt (Id' r) = Inr i))) \<and>
           (\<forall>c\<in>set cs. \<exists>r\<in>set recs. Type r = ''A'' \<and> Value r \<noteq> ip \<and>
              ((\<exists>i. ParseInt (Id' r) = Inr i \<and> c = RecordDelete key zoneId version i) \<or>
               c = RecordAdd key zoneId version (NewRecord (Type r) (Name r) ip (TTL r))))"
  using run
proof (cases rule: updateRecords_run)
  case (list_failed recs' e)
  with listing show ?thesis by simp
next
  case (listed recs')
  with listing have recs': "recs' = recs" by simp
  let ?s1 = "issue (RecordList key zoneId version) s"
  from listed(2) have loop: "updateRecords_loop env key recs zoneId version ip ?s1 = (res, s')"
    by (simp add: recs')
  from loop_calls [OF loop] obtain cs rest where
    cs: "calls s' = calls ?s1 @ cs"
      "cs @ rest = all_pairs key zoneId version ip recs" "res = None \<longrightarrow> rest = []"
    by blast
  have live: "res = None \<and> rest = []"
    if ok: "all_ok env (calls s @ [RecordList key zoneId version]) cs"
      and p: "\<forall>r\<in>set recs. differs ip r \<longrightarrow> parses r"
  proof (cases res)
    case None
    with cs(3) show ?thesis by simp
  next
    case (Some e)
    from ok have "all_ok env (calls ?s1) cs" by (simp add: calls_issue)
    from loop_error_cause [OF loop [unfolded Some] cs(1) this] p show ?thesis by auto
  qed
  have parsed: "all_ok env (calls s @ [RecordList key zoneId version]) cs \<and>
      (\<forall>r\<in>set recs. differs ip r \<longrightarrow>
      (\<exists>i. pair_calls key zoneId version ip r =
         [RecordDelete key zoneId version i,
          RecordAdd key zoneId version (NewRecord (Type r) (Name r) ip (TTL r))] \<and>
         ParseInt (Id' r) = Inr i))" if "res = None"
  proof -
    from loop that
    have "updateRecords_loop env key recs zoneId version ip ?s1 = (None, s')" by simp
    from loop_success [OF this] cs(2,3) that
    have "all_ok env (calls ?s1) cs" "\<forall>r\<in>set recs. differs ip r \<longrightarrow> parses r" by auto
    then show ?thesis
      by (auto simp: calls_issue parses_def pair_calls_def replacement_def split: sum.splits)
  qed
  have origin: "\<exists>r\<in>set recs. Type r = ''A'' \<and> Value r \<noteq> ip \<and>
      ((\<exists>i. ParseInt (Id' r) = Inr i \<and> c = RecordDelete key zoneId version i) \<or>
       c = RecordAdd key zoneId version (NewRecord (Type r) (Name r) ip (TTL r)))"
    if "c \<in> set cs" for c
  proof -
    from that cs(2) have "c \<in> set (all_pairs key zoneId version ip recs)"
      by (metis Un_iff set_append)
    from all_pairs_origin [OF this] show ?thesis
      by (auto simp: differs_def replacement_def)
  qed
  from cs live parsed origin show ?thesis
    by (intro exI [of _ cs] exI [of _ rest]) (simp add: all_pairs_def calls_issue)
qed

theorem C4_delete_then_add_witness:
  "record_list env_mixed (calls init) ''k'' 42 7 = ([rec_mx, rec1, rec_same, rec2], None) \<and>
   parses rec1 \<and> parses rec2 \<and>
   all_ok env_mixed (calls init @ [RecordList ''k'' 42 7])
     [RecordDelete ''k'' 42 7 1001, RecordAdd ''k'' 42 7 (NewRecord ''A'' ''@'' ''5.6.7.8'' 300),
      RecordDelete ''k'' 42 7 1004, RecordAdd ''k'' 42 7 (NewRecord ''A'' ''www'' ''5.6.7.8'' 600)] \<and>
   fst (updateRecords env_mixed ''k'' [] 42 7 ''5.6.7.8'' init) = None \<and>
   calls (snd (updateRecords env_mixed ''k'' [] 42 7 ''5.6.7.8'' init)) =
     [RecordList ''k'' 42 7,
      RecordDelete ''k'' 42 7 1001, RecordAdd ''k'' 42 7 (NewRecord ''A'' ''@'' ''5.6.7.8'' 300),
      RecordDelete ''k'' 42 7 1004, RecordAdd ''k'' 42 7 (NewRecord ''A'' ''www'' ''5.6.7.8'' 600)]"
proof -
  let ?run = "updateRecords env_mixed ''k'' [] 42 7 ''5.6.7.8'' init"
  let ?pairs = "[RecordDelete ''k'' 42 7 1001, RecordAdd ''k'' 42 7 (NewRecord ''A'' ''@'' ''5.6.7.8'' 300),
      RecordDelete ''k'' 42 7 1004, RecordAdd ''k'' 42 7 (NewRecord ''A'' ''www'' ''5.6.7.8'' 600)]"
  have run: "?run = (fst ?run, snd ?run)" by simp
  have listing: "record_list env_mixed (calls init) ''k'' 42 7 =
      ([rec_mx, rec1, rec_same, rec2], None)"
    by code_simp
  have p: "parses rec1" "parses rec2" by code_simp+
  have ps: "\<forall>r\<in>set [rec_mx, rec1, rec_same, rec2]. differs ''5.6.7.8'' r \<longrightarrow> parses r"
    by code_simp
  have pairs: "concat (map (pair_calls ''k'' 42 7 ''5.6.7.8'')
      (filter (differs ''5.6.7.8'') [rec_mx, rec1, rec_same, rec2])) = ?pairs"
    by code_simp
  have ok: "all_ok env_mixed (calls init @ [RecordList ''k'' 42 7]) ?pairs" by code_simp
  from C4_delete_then_add [OF run listing] obtain cs rest where
    cs: "calls (snd ?run) = calls init @ RecordList ''k'' 42 7 # cs"
      "cs @ rest = ?pairs"
      "all_ok env_mixed (calls init @ [RecordList ''k'' 42 7]) cs \<and>
        (\<forall>r\<in>set [rec_mx, rec1, rec_same, rec2]. differs ''5.6.7.8'' r \<longrightarrow> parses r) \<longrightarrow>
        fst ?run = None \<and> rest = []"
    unfolding pairs by blast
  have "all_ok env_mixed (calls init @ [RecordList ''k'' 42 7]) cs"
    using ok cs(2) by (metis all_ok_append)
  with cs(3) ps have "fst ?run = None" "rest = []" by blast+
  with cs(1,2) listing p ok show ?thesis by (simp add: init_def)
qed

subsection \<open>An identifier that does not parse\<close>

text \<open>
  Claim C5. Let \<open>r\<close> be a record the update acts on (type \<^verbatim>\<open>"A"\<close>, value other than the
  address) whose identifier \<^verbatim>\<open>strconv.ParseInt\<close> rejects, reached after the records
  \<open>pre\<close> were processed without error. Then \<^verbatim>\<open>DeleteRecord\<close> returns the parse error
  without issuing a call, the loop returns that error with the calls made for \<open>pre\<close> and
  nothing else (so no record of \<open>post\<close> is processed), and the error is a
  \<^verbatim>\<open>NumError\<close> of \<^verbatim>\<open>ParseInt\<close> on the identifier, not a call with a truncated number.
\<close>

theorem C5_unparsable_identifier:
  assumes "ParseInt (Id' r) = Inl e" and "Type r = ''A''" and "Value r \<noteq> ip"
    and "updateRecords_loop env key pre zoneId version ip s = (None, s1)"
  shows "DeleteRecord env key zoneId version (Id' r) s0 = ((0, Some e), s0) \<and>
         updateRecords_loop env key (pre @ r # post) zoneId version ip s =
           (Some e, println [PStr ''updating'', PRecord (r\<lparr>Value := ip\<rparr>)] s1) \<and>
         (\<exists>k. e = NumError ''ParseInt'' (Id' r) k)"
proof -
  from assms(2,3) have "differs ip r" by (simp add: differs_def)
  with assms(1) have "updateRecords_loop env key (r # post) zoneId version ip s1 =
      (Some e, println [PStr ''updating'', PRecord (r\<lparr>Value := ip\<rparr>)] s1)"
    by (simp add: loop_parse_error)
  with loop_append [OF assms(4), of "r # post"] assms(1) show ?thesis
    by (simp add: DeleteRecord_def ParseInt_error)
qed

theorem C5_unparsable_identifier_witness:
  "ParseInt (Id' rec_bad) = Inl (NumError ''ParseInt'' ''12x'' ErrSyntax) \<and>
   Type rec_bad = ''A'' \<and> Value rec_bad \<noteq> ''5.6.7.8'' \<and>
   updateRecords_loop (scenario [] ''5.6.7.8'' []) ''k'' [rec1] 42 7 ''5.6.7.8'' init =
     (None, \<lparr>calls = [RecordDelete ''k'' 42 7 1001,
                      RecordAdd ''k'' 42 7 (NewRecord ''A'' ''@'' ''5.6.7.8'' 300)],
             stdout = [Println [PStr ''updating'', PRecord (rec1\<lparr>Value := ''5.6.7.8''\<rparr>)]],
             stderr = []\<rparr>) \<and>
   updateRecords_loop (scenario [] ''5.6.7.8'' []) ''k'' ([rec1] @ rec_bad # [rec1]) 42 7 ''5.6.7.8'' init =
     (Some (NumError ''ParseInt'' ''12x'' ErrSyntax),
      \<lparr>calls = [RecordDelete ''k'' 42 7 1001,
                RecordAdd ''k'' 42 7 (NewRecord ''A'' ''@'' ''5.6.7.8'' 300)],
       stdout = [Println [PStr ''updating'', PRecord (rec1\<lparr>Value := ''5.6.7.8''\<rparr>)],
                 Println [PStr ''updating'', PRecord (rec_bad\<lparr>Value := ''5.6.7.8''\<rparr>)]],
       stderr = []\<rparr>)"
proof -
  have p: "ParseInt (Id' rec_bad) = Inl (NumError ''ParseInt'' ''12x'' ErrSyntax)"
    by code_simp
  have t: "Type rec_bad = ''A''" and v: "Value rec_bad \<noteq> ''5.6.7.8''"
    by (simp_all add: rec_bad_def)
  have pre: "updateRecords_loop (scenario [] ''5.6.7.8'' []) ''k'' [rec1] 42 7 ''5.6.7.8'' init =
     (None, \<lparr>calls = [RecordDelete ''k'' 42 7 1001,
                      RecordAdd ''k'' 42 7 (NewRecord ''A'' ''@'' ''5.6.7.8'' 300)],
             stdout = [Println [PStr ''updating'', PRecord (rec1\<lparr>Value := ''5.6.7.8''\<rparr>)]],
             stderr = []\<rparr>)"
    by code_simp
  from C5_unparsable_identifier [OF p t v pre, of init "[rec1]"] p t v pre show ?thesis
    by (simp add: println_def)
qed

subsection \<open>A deletion that deletes nothing\<close>

text \<open>
  Claim C6. Suppose a record deletion issued by the transaction was answered without an
  error but with a count below one. Then the transaction returns the error
  \<^verbatim>\<open>no record deleted\<close>, and the only call after that deletion is the deletion of the
  cloned version: no record is added.
\<close>

theorem C6_no_record_deleted:
  assumes run: "checkIP_transaction env key zoneId ip records s = (res, s')"
    and split: "calls s' = h @ RecordDelete k z ver i # rest" and len: "length (calls s) \<le> length h"
    and answer: "record_delete env h k z ver i = (n, None)" and count: "n < 1"
  shows "res = Some (Errorf ''no record deleted'' []) \<and>
         rest = [VersionDelete key zoneId (fst (version_new env (calls s) key zoneId))] \<and>
         \<not> (\<exists>c\<in>set rest. is_add c)"
proof -
  from answer count
  have "call_failure env h (RecordDelete k z ver i) = Some (Errorf ''no record deleted'' [])"
    by (simp add: call_failure.simps(1))
  from transaction_failed_call [OF run split len this] show ?thesis by simp
qed

theorem C6_no_record_deleted_witness:
  "calls (snd (checkIP_transaction env_none_deleted ''k'' 42 ''5.6.7.8'' [rec1] init)) =
     [VersionNew ''k'' 42, RecordList ''k'' 42 7] @ RecordDelete ''k'' 42 7 1001 #
     [VersionDelete ''k'' 42 7] \<and>
   record_delete env_none_deleted [VersionNew ''k'' 42, RecordList ''k'' 42 7] ''k'' 42 7 1001 =
     (0, None) \<and>
   fst (checkIP_transaction env_none_deleted ''k'' 42 ''5.6.7.8'' [rec1] init) =
     Some (Errorf ''no record deleted'' [])"
proof -
  let ?run = "checkIP_transaction env_none_deleted ''k'' 42 ''5.6.7.8'' [rec1] init"
  let ?h = "[VersionNew ''k'' 42, RecordList ''k'' 42 7]"
  have run: "?run = (fst ?run, snd ?run)" by simp
  have cs: "calls (snd ?run) = ?h @ RecordDelete ''k'' 42 7 1001 # [VersionDelete ''k'' 42 7]"
    by code_simp
  have len: "length (calls init) \<le> length ?h" by (simp add: init_def)
  have answer: "record_delete env_none_deleted ?h ''k'' 42 7 1001 = (0, None)" by code_simp
  have count: "(0::int) < 1" by simp
  from C6_no_record_deleted [OF run cs len answer count] cs answer show ?thesis by simp
qed

subsection \<open>The value written\<close>

text \<open>
  Claim C7. Every record added by a run has type \<^verbatim>\<open>"A"\<close> and a value accepted by
  \<^verbatim>\<open>reIP.MatchString\<close> (lemma \<open>written_value_matches\<close>). The pattern has no anchors,
  though: the address \<^verbatim>\<open>x1.2.3.4y\<close> is not a dotted quad, \<^verbatim>\<open>getMyIP\<close> accepts it, and
  the run sends it as the value of the replacement record.
\<close>

theorem C7_unanchored_pattern:
  "\<not> dotted_quad ''x1.2.3.4y'' \<and> reIP_MatchString ''x1.2.3.4y'' \<and>
   fst (getMyIP env_bad_ip init) = Inr ''x1.2.3.4y'' \<and>
   calls (final (main env_bad_ip)) =
     [HttpGet ipify_url, DomainInfo ''k'' ''example.org'', RecordList ''k'' 42 0,
      VersionNew ''k'' 42, RecordList ''k'' 42 7, RecordDelete ''k'' 42 7 1001,
      RecordAdd ''k'' 42 7 (NewRecord ''A'' ''@'' ''x1.2.3.4y'' 300), VersionSet ''k'' 42 7]"
  by code_simp

subsection \<open>A failed activation\<close>

text \<open>
  Claim C8. When the activation of the cloned version is answered \<^verbatim>\<open>false\<close>, the run
  ends with the activation as its last call: the error is reported, and the cloned version
  7 is neither active nor deleted. (After a failed update of the records the version is
  deleted: see C2.)
\<close>

theorem C8_failed_activation_no_cleanup:
  "version_set env_activation_fails
     [HttpGet ipify_url, DomainInfo ''k'' ''example.org'', RecordList ''k'' 42 0,
      VersionNew ''k'' 42, RecordList ''k'' 42 7, RecordDelete ''k'' 42 7 1001,
      RecordAdd ''k'' 42 7 (NewRecord ''A'' ''@'' ''5.6.7.8'' 300)] ''k'' 42 7 = (False, None) \<and>
   calls (final (main env_activation_fails)) =
     [HttpGet ipify_url, DomainInfo ''k'' ''example.org'', RecordList ''k'' 42 0,
      VersionNew ''k'' 42, RecordList ''k'' 42 7, RecordDelete ''k'' 42 7 1001,
      RecordAdd ''k'' 42 7 (NewRecord ''A'' ''@'' ''5.6.7.8'' 300), VersionSet ''k'' 42 7] \<and>
   filter is_version_delete (calls (final (main env_activation_fails))) = [] \<and>
   stderr (final (main env_activation_fails)) =
     [Fprintf ''err: %s\<newline>'' (Errorf ''zone activation failed for unknown reason'' [])]"
  by code_simp

subsection \<open>The exit status\<close>

text \<open>
  Claim C9, as the code has it. The process ends with status 0 exactly when the command
  line has its two arguments, the IP service answers 200 with a body whose \<^verbatim>\<open>ip\<close>
  field the pattern accepts, the client is created, the zone lookup and the listing of the
  active version succeed, and no A record listed has a value other than the address; then
  nothing was written to standard error, no mutating call was issued and the last line
  printed is \<^verbatim>\<open>unchanged ip\<close>. Every other run ends with status 1. When the command
  line parsed, a run with status 1 leaves exactly one line on standard error, the error
  \<^verbatim>\<open>checkIP\<close> returned formatted with \<^verbatim>\<open>err: %s\<close>. When \<^verbatim>\<open>flag.Parse\<close> fails,
  the process exits from \<^verbatim>\<open>flag.Usage\<close> with the usage text on standard output and no
  call made, and standard error holds only what the \<^verbatim>\<open>flag\<close> package wrote. A run
  whose last call is an activation answered with success ends with status 1 and the line
  \<^verbatim>\<open>err: ip changed to ...\<close>.
\<close>

theorem C9_exit_status:
  "(exit_status (main env) = 0 \<longleftrightarrow>
      (\<exists>args rsp data ip zoneId records.
         flag_parse env = Parsed args \<and> 2 \<le> length args \<and>
         http_get env [] ipify_url = Inr rsp \<and> StatusCode rsp = 200 \<and> Body rsp = Inr data \<and>
         json_ip env data = Inr ip \<and> reIP_MatchString ip \<and> new_client env = None \<and>
         domain_info env [HttpGet ipify_url] (args ! 0) (args ! 1) = (zoneId, None) \<and>
         record_list env [HttpGet ipify_url, DomainInfo (args ! 0) (args ! 1)]
           (args ! 0) zoneId 0 = (records, None) \<and>
         (\<forall>r\<in>set records. Type r = ''A'' \<longrightarrow> Value r = ip))) \<and>
   (exit_status (main env) = 0 \<longrightarrow>
      stderr (final (main env)) = [] \<and>
      list_all (\<lambda>c. \<not> mutating c) (calls (final (main env))) \<and>
      last (stdout (final (main env))) = Println [PStr ''unchanged ip'']) \<and>
   (exit_status (main env) \<noteq> 0 \<longrightarrow> exit_status (main env) = 1) \<and>
   (\<forall>args. flag_parse env = Parsed args \<and> exit_status (main env) \<noteq> 0 \<longrightarrow>
      (\<exists>e. fst (checkIP env init) = Return (Some e) \<and>
           stderr (final (main env)) = [Fprintf ''err: %s\<newline>'' e])) \<and>
   (\<forall>msgs. flag_parse env = ParseFailed msgs \<longrightarrow>
      exit_status (main env) = 1 \<and> stderr (final (main env)) = map FlagOutput msgs \<and>
      stdout (final (main env)) = [Println [PStr usage_text]] \<and> calls (final (main env)) = []) \<and>
   (\<forall>h k z v. calls (final (main env)) = h @ [VersionSet k z v] \<and>
        version_set env h k z v = (True, None) \<longrightarrow>
      exit_status (main env) = 1 \<and>
      (\<exists>ip. stderr (final (main env)) =
         [Fprintf ''err: %s\<newline>'' (Errorf ''ip changed to %s'' [VStr ip])]))"
proof -
  obtain r s' where run: "checkIP env init = (r, s')" by force
  have exit_1: "r = Exit n \<Longrightarrow> n = 1" for n
    using run by (cases rule: checkIP_run [of env init]) auto
  have st: "exit_status (main env) = (case r of Exit n \<Rightarrow> n | Return None \<Rightarrow> 0 | Return (Some e) \<Rightarrow> 1)"
    using run by (auto simp: main_def split: outcome.splits option.splits)
  have cs: "calls (final (main env)) = calls s'"
    using run by (auto simp: main_def split: outcome.splits option.splits)
  have out: "stdout (final (main env)) = stdout s'"
    using run by (auto simp: main_def split: outcome.splits option.splits)
  have err: "stderr (final (main env)) =
      (case r of Return (Some e) \<Rightarrow> stderr s' @ [Fprintf ''err: %s\<newline>'' e] | _ \<Rightarrow> stderr s')"
    using run by (auto simp: main_def split: outcome.splits option.splits)
  have quiet: "stderr s' = []" if "r = Return x" for x
    using checkIP_Return_stderr [of env init x s'] run that by (simp add: init_def)
  have zero: "exit_status (main env) = 0 \<longleftrightarrow> fst (checkIP env init) = Return None"
    using run st exit_1 by (auto split: outcome.splits option.splits)
  have c1: "exit_status (main env) = 0 \<longleftrightarrow>
      (\<exists>args rsp data ip zoneId records.
         flag_parse env = Parsed args \<and> 2 \<le> length args \<and>
         http_get env [] ipify_url = Inr rsp \<and> StatusCode rsp = 200 \<and> Body rsp = Inr data \<and>
         json_ip env data = Inr ip \<and> reIP_MatchString ip \<and> new_client env = None \<and>
         domain_info env [HttpGet ipify_url] (args ! 0) (args ! 1) = (zoneId, None) \<and>
         record_list env [HttpGet ipify_url, DomainInfo (args ! 0) (args ! 1)]
           (args ! 0) zoneId 0 = (records, None) \<and>
         (\<forall>r\<in>set records. Type r = ''A'' \<longrightarrow> Value r = ip))"
    unfolding zero using exit_zero_reads [of env] quiet_run_exit [of env] by blast
  have c2: "stderr (final (main env)) = [] \<and>
      list_all (\<lambda>c. \<not> mutating c) (calls (final (main env))) \<and>
      last (stdout (final (main env))) = Println [PStr ''unchanged ip'']"
    if "exit_status (main env) = 0"
  proof -
    from that zero run have r: "r = Return None" by simp
    with run have "checkIP env init = (Return None, s')" by simp
    from checkIP_Return_None [OF this] quiet [OF r] r show ?thesis
      by (auto simp: cs out err init_def)
  qed
  have c3: "exit_status (main env) \<noteq> 0 \<longrightarrow> exit_status (main env) = 1"
    using st exit_1 by (auto split: outcome.splits option.splits)
  have c4: "\<exists>e. fst (checkIP env init) = Return (Some e) \<and>
           stderr (final (main env)) = [Fprintf ''err: %s\<newline>'' e]"
    if p: "flag_parse env = Parsed args" and nz: "exit_status (main env) \<noteq> 0" for args
  proof -
    from p run have "\<exists>x. r = Return x"
      by (cases rule: checkIP_run [of env init]) auto
    with nz st obtain e where r: "r = Return (Some e)"
      by (auto split: option.splits)
    with run err quiet [OF r] show ?thesis by simp
  qed
  have c5: "exit_status (main env) = 1 \<and> stderr (final (main env)) = map FlagOutput msgs \<and>
      stdout (final (main env)) = [Println [PStr usage_text]] \<and> calls (final (main env)) = []"
    if "flag_parse env = ParseFailed msgs" for msgs
    using that by (simp add: main_def checkIP_def init_def println_def)
  have c6: "exit_status (main env) = 1 \<and>
      (\<exists>ip. stderr (final (main env)) =
         [Fprintf ''err: %s\<newline>'' (Errorf ''ip changed to %s'' [VStr ip])])"
    if last: "calls (final (main env)) = h @ [VersionSet k z v]"
      and ok: "version_set env h k z v = (True, None)" for h k z v
  proof (cases rule: checkIP_run [of env init])
    case (usage msgs)
    with run last cs show ?thesis by (simp add: calls_println init_def)
  next
    case (missing args)
    with run last cs show ?thesis by (simp add: init_def)
  next
    case (early args e s1 new)
    with run last cs have "new = h @ [VersionSet k z v]" by (simp add: init_def)
    with early(6) show ?thesis by (simp add: mutating_def)
  next
    case (transaction args ip zoneId records s5 res s'')
    with run last cs have last': "calls s'' = h @ [VersionSet k z v]" by simp
    have drift: "changed records ip"
    proof (rule ccontr)
      assume "\<not> changed records ip"
      with transaction(8) have "calls s'' = calls s5"
        by (auto simp: checkIP_transaction_def calls_println)
      with last' transaction(4) show False by (simp add: init_def)
    qed
    from last_call_activation [OF transaction(8) drift last' ok] transaction(9) run
    have r: "r = Return (Some (Errorf ''ip changed to %s'' [VStr ip]))" by simp
    with st err quiet [OF r] show ?thesis by simp
  qed
  from c1 c2 c3 c4 c5 c6 show ?thesis by blast
qed


theorem C9_exit_status_witness:
  "exit_status (main env_unchanged) = 0 \<and> stderr (final (main env_unchanged)) = [] \<and>
   last (stdout (final (main env_unchanged))) = Println [PStr ''unchanged ip''] \<and>
   flag_parse env_changed = Parsed [''k'', ''example.org''] \<and>
   calls (final (main env_changed)) =
     [HttpGet ipify_url, DomainInfo ''k'' ''example.org'', RecordList ''k'' 42 0,
      VersionNew ''k'' 42, RecordList ''k'' 42 7, RecordDelete ''k'' 42 7 1001,
      RecordAdd ''k'' 42 7 (NewRecord ''A'' ''@'' ''5.6.7.8'' 300)] @ [VersionSet ''k'' 42 7] \<and>
   exit_status (main env_changed) = 1 \<and>
   stderr (final (main env_changed)) =
     [Fprintf ''err: %s\<newline>'' (Errorf ''ip changed to %s'' [VStr ''5.6.7.8''])] \<and>
   flag_parse env_listing_fails = Parsed [''k'', ''example.org''] \<and>
   exit_status (main env_listing_fails) = 1 \<and>
   stderr (final (main env_listing_fails)) = [Fprintf ''err: %s\<newline>'' (LibError ''listing failed'')] \<and>
   flag_parse env_help = ParseFailed [] \<and> exit_status (main env_help) = 1 \<and>
   stdout (final (main env_help)) = [Println [PStr usage_text]]"
proof -
  have u: "exit_status (main env_unchanged) = 0" by code_simp
  have p: "flag_parse env_changed = Parsed [''k'', ''example.org'']" by code_simp
  have cs: "calls (final (main env_changed)) =
     [HttpGet ipify_url, DomainInfo ''k'' ''example.org'', RecordList ''k'' 42 0,
      VersionNew ''k'' 42, RecordList ''k'' 42 7, RecordDelete ''k'' 42 7 1001,
      RecordAdd ''k'' 42 7 (NewRecord ''A'' ''@'' ''5.6.7.8'' 300)] @ [VersionSet ''k'' 42 7]"
    by code_simp
  have ok: "version_set env_changed
     [HttpGet ipify_url, DomainInfo ''k'' ''example.org'', RecordList ''k'' 42 0,
      VersionNew ''k'' 42, RecordList ''k'' 42 7, RecordDelete ''k'' 42 7 1001,
      RecordAdd ''k'' 42 7 (NewRecord ''A'' ''@'' ''5.6.7.8'' 300)] ''k'' 42 7 = (True, None)"
    by code_simp
  have e: "stderr (final (main env_changed)) =
     [Fprintf ''err: %s\<newline>'' (Errorf ''ip changed to %s'' [VStr ''5.6.7.8''])]"
    by code_simp
  have l: "flag_parse env_listing_fails = Parsed [''k'', ''example.org'']" by code_simp
  have lr: "fst (checkIP env_listing_fails init) = Return (Some (LibError ''listing failed''))"
    by code_simp
  have h: "flag_parse env_help = ParseFailed []" by code_simp
  note unchanged = C9_exit_status [of env_unchanged, THEN conjunct2, THEN conjunct1, rule_format, OF u]
  note applied = C9_exit_status [of env_changed, THEN conjunct2, THEN conjunct2, THEN conjunct2,
      THEN conjunct2, THEN conjunct2, rule_format, OF conjI, OF cs ok]
  have lnz: "exit_status (main env_listing_fails) \<noteq> 0" by code_simp
  note status_one = C9_exit_status [of env_listing_fails, THEN conjunct2, THEN conjunct2, THEN conjunct1,
      rule_format, OF lnz]
  note one_line = C9_exit_status [of env_listing_fails, THEN conjunct2, THEN conjunct2, THEN conjunct2,
      THEN conjunct1, rule_format, OF conjI, OF l lnz]
  note usage_run = C9_exit_status [of env_help, THEN conjunct2, THEN conjunct2, THEN conjunct2,
      THEN conjunct2, THEN conjunct1, rule_format, OF h]
  from unchanged u p cs applied e l status_one one_line lr h usage_run show ?thesis by simp
qed

text \<open>
  When \<^verbatim>\<open>flag.Parse\<close> rejects the command line without writing a message, the process
  ends with status 1 and nothing on standard error.
\<close>

theorem C9_help_counterexample:
  "flag_parse env_help = ParseFailed [] \<and> exit_status (main env_help) = 1 \<and>
   stderr (final (main env_help)) = []"
  by code_simp


subsection \<open>A missing argument\<close>

text \<open>
  Claim C10, as the code has it. When \<^verbatim>\<open>flag.Parse\<close> leaves fewer than two positional
  arguments, \<^verbatim>\<open>checkIP\<close> returns \<^verbatim>\<open>missing api-key argument\<close> (none left) or
  \<^verbatim>\<open>missing domain argument\<close> (one left): the process exits with status 1, the one
  line on standard error is that error, no remote call is made, and nothing is written to
  standard output. The usage text is printed by \<^verbatim>\<open>flag.Usage\<close> only, which the
  \<^verbatim>\<open>flag\<close> package calls when parsing fails.
\<close>

theorem C10_missing_argument:
  assumes "flag_parse env = Parsed args" and "length args < 2"
  shows "main env =
     \<lparr>exit_status = 1,
      final = \<lparr>calls = [], stdout = [],
        stderr = [Fprintf ''err: %s\<newline>''
          (Errorf (if length args < 1 then ''missing api-key argument''
                   else ''missing domain argument'') [])]\<rparr>\<rparr>"
  using assms by (auto simp: main_def checkIP_def init_def)

theorem C10_missing_argument_witness:
  "flag_parse (scenario [''k''] ''5.6.7.8'' [rec1]) = Parsed [''k''] \<and>
   main (scenario [''k''] ''5.6.7.8'' [rec1]) =
     \<lparr>exit_status = 1,
      final = \<lparr>calls = [], stdout = [],
        stderr = [Fprintf ''err: %s\<newline>'' (Errorf ''missing domain argument'' [])]\<rparr>\<rparr>"
  using C10_missing_argument [of "scenario [''k''] ''5.6.7.8'' [rec1]" "[''k'']"]
  by (simp add: scenario_def)

text \<open>
  With the domain missing, the run ends with status 1 and standard output is empty: no
  usage text is printed.
\<close>

theorem C10_no_usage_counterexample:
  "flag_parse (scenario [''k''] ''5.6.7.8'' [rec1]) = Parsed [''k''] \<and>
   exit_status (main (scenario [''k''] ''5.6.7.8'' [rec1])) = 1 \<and>
   stdout (final (main (scenario [''k''] ''5.6.7.8'' [rec1]))) = []"
  by (simp add: scenario_def main_def checkIP_def init_def)

end
